theory Spec2Isabelle
  imports Complex_Main "HOL-Library.Sublist"
begin

section \<open>The training history of \<open>flwr.server.history\<close>\<close>

text \<open>
  The class \<open>History\<close> collects, round by round, two series of losses and three tables
  of named metrics, and renders them as text (\<open>__repr__\<close>) or as a nested dictionary
  (\<open>repr_json\<close>). This theory embeds the class method by method.

  \<^item> A round index is a Python \<open>int\<close>, hence \<open>int\<close>.
  \<^item> A loss or metric value (\<open>float\<close>, \<open>Scalar\<close>) is stored and printed by the object
    without being looked at: there it is the type parameter \<open>'v\<close>, and where a value
    is printed, the printer is the parameter \<open>fmt\<close>. Only \<open>reformat_json\<close> looks at the
    values, through numpy; for it a value is a \<open>scalar\<close>, and numpy's conversions are
    modelled before it.
  \<^item> The dictionaries kept in the object are iterated over, so they are association
    lists in insertion order, as Python's \<open>dict\<close> is. The dictionaries that the reports
    build are only returned, so they are maps.
  \<^item> An exception is a value: a fallible function returns \<open>py_error + 'a\<close>.
\<close>

subsection \<open>Python values\<close>

datatype py_error =
  IndexError | KeyError | TypeError | AttributeError | ValueError | UnicodeDecodeError

text \<open>Sequencing of fallible steps: the first exception ends the computation.\<close>

definition and_then :: "py_error + 'a \<Rightarrow> ('a \<Rightarrow> py_error + 'b) \<Rightarrow> py_error + 'b" where
  "and_then m f = (case m of Inl e \<Rightarrow> Inl e | Inr a \<Rightarrow> f a)"

type_synonym ('k, 'a) dict = "('k \<times> 'a) list"

text \<open>\<open>key in d\<close>\<close>

definition dict_contains :: "'k \<Rightarrow> ('k, 'a) dict \<Rightarrow> bool" where
  "dict_contains key d = (key \<in> set (map fst d))"

text \<open>\<open>d[key]\<close>, which raises \<open>KeyError\<close> for a key that is not there.\<close>

fun dict_getitem :: "('k, 'a) dict \<Rightarrow> 'k \<Rightarrow> py_error + 'a" where
  "dict_getitem [] key = Inl KeyError"
| "dict_getitem ((k, v) # d) key = (if k = key then Inr v else dict_getitem d key)"

text \<open>\<open>d[key] = v\<close>: a key that is there keeps its position, a new one goes last.\<close>

fun dict_setitem :: "('k, 'a) dict \<Rightarrow> 'k \<Rightarrow> 'a \<Rightarrow> ('k, 'a) dict" where
  "dict_setitem [] key v = [(key, v)]"
| "dict_setitem ((k, v') # d) key v =
     (if k = key then (k, v) # d else (k, v') # dict_setitem d key v)"

text \<open>\<open>functools.reduce(f, xs)\<close> without an initial value raises \<open>TypeError\<close> on \<open>[]\<close>.\<close>

fun reduce :: "('a \<Rightarrow> 'a \<Rightarrow> 'a) \<Rightarrow> 'a list \<Rightarrow> py_error + 'a" where
  "reduce f [] = Inl TypeError"
| "reduce f (x # xs) = Inr (foldl f x xs)"

text \<open>An \<open>int\<close> in an f-string: its decimal digits, after a minus sign when negative.\<close>

fun str_nat :: "nat \<Rightarrow> string" where
  "str_nat n =
     (if n < 10 then [''0123456789'' ! n]
      else str_nat (n div 10) @ [''0123456789'' ! (n mod 10)])"

declare str_nat.simps [simp del]

definition str_int :: "int \<Rightarrow> string" where
  "str_int i = (if i < 0 then ''-'' @ str_nat (nat (- i)) else str_nat (nat i))"

text \<open>
  What \<open>repr_json\<close> returns: values, lists of values (\<open>ndarray.tolist()\<close>) and
  dictionaries with string keys.
\<close>

datatype 'v json = Num 'v | Arr "'v list" | Obj "string \<Rightarrow> 'v json option"

subsection \<open>The object and its constructor\<close>

type_synonym 'v series = "(int \<times> 'v) list"

record 'v History =
  losses_distributed :: "'v series"
  losses_centralized :: "'v series"
  metrics_distributed_fit :: "(string, 'v series) dict"
  metrics_distributed :: "(string, 'v series) dict"
  metrics_centralized :: "(string, 'v series) dict"

text \<open>\<open>History.__init__\<close>\<close>

definition History_init :: "'v History" where
  "History_init =
     \<lparr> losses_distributed = [], losses_centralized = [],
       metrics_distributed_fit = [], metrics_distributed = [],
       metrics_centralized = [] \<rparr>"

subsection \<open>The five append methods\<close>

definition add_loss_distributed :: "'v History \<Rightarrow> int \<Rightarrow> 'v \<Rightarrow> 'v History" where
  "add_loss_distributed self server_round loss =
     self\<lparr>losses_distributed := losses_distributed self @ [(server_round, loss)]\<rparr>"

definition add_loss_centralized :: "'v History \<Rightarrow> int \<Rightarrow> 'v \<Rightarrow> 'v History" where
  "add_loss_centralized self server_round loss =
     self\<lparr>losses_centralized := losses_centralized self @ [(server_round, loss)]\<rparr>"

text \<open>
  The body of the loop of the three \<open>add_metrics_*\<close> methods, on the table \<open>tbl\<close>:
  \<^verbatim>\<open>
  if key not in tbl:
      tbl[key] = []
  tbl[key].append(entry)
  \<close>
  The list stored under a key is created by this very body and is reachable through
  that key only, so appending to it in place is storing the longer list under the key.
\<close>

definition append_metric ::
  "(string, 'v series) dict \<Rightarrow> string \<Rightarrow> int \<times> 'v \<Rightarrow> py_error + (string, 'v series) dict" where
  "append_metric tbl key entry =
     (let tbl1 = (if \<not> dict_contains key tbl then dict_setitem tbl key [] else tbl)
      in and_then (dict_getitem tbl1 key)
           (\<lambda>stored. Inr (dict_setitem tbl1 key (stored @ [entry]))))"

text \<open>
  \<open>for key in metrics: ...append((server_round, metrics[key]))\<close>, the keys still to
  visit being the last argument.
\<close>

fun add_metrics_loop ::
  "(string, 'v series) dict \<Rightarrow> int \<Rightarrow> (string, 'v) dict \<Rightarrow> string list
     \<Rightarrow> py_error + (string, 'v series) dict" where
  "add_metrics_loop tbl server_round metrics [] = Inr tbl"
| "add_metrics_loop tbl server_round metrics (key # keys) =
     and_then (dict_getitem metrics key)
       (\<lambda>v. and_then (append_metric tbl key (server_round, v))
          (\<lambda>tbl'. add_metrics_loop tbl' server_round metrics keys))"

definition add_metrics_distributed_fit ::
  "'v History \<Rightarrow> int \<Rightarrow> (string, 'v) dict \<Rightarrow> py_error + 'v History" where
  "add_metrics_distributed_fit self server_round metrics =
     and_then
       (add_metrics_loop (metrics_distributed_fit self) server_round metrics (map fst metrics))
       (\<lambda>tbl. Inr (self\<lparr>metrics_distributed_fit := tbl\<rparr>))"

definition add_metrics_distributed ::
  "'v History \<Rightarrow> int \<Rightarrow> (string, 'v) dict \<Rightarrow> py_error + 'v History" where
  "add_metrics_distributed self server_round metrics =
     and_then
       (add_metrics_loop (metrics_distributed self) server_round metrics (map fst metrics))
       (\<lambda>tbl. Inr (self\<lparr>metrics_distributed := tbl\<rparr>))"

definition add_metrics_centralized ::
  "'v History \<Rightarrow> int \<Rightarrow> (string, 'v) dict \<Rightarrow> py_error + 'v History" where
  "add_metrics_centralized self server_round metrics =
     and_then
       (add_metrics_loop (metrics_centralized self) server_round metrics (map fst metrics))
       (\<lambda>tbl. Inr (self\<lparr>metrics_centralized := tbl\<rparr>))"

subsection \<open>Values as numpy sees them\<close>

text \<open>
  \<open>reformat_json\<close> is the one method that looks at the stored values: it hands the series
  to \<open>np.array\<close>. What comes back depends on what the values are, so here a value is one
  of the kinds that a caller can pass as \<open>float\<close> or \<open>Scalar\<close>: an \<open>int\<close>, a \<open>float\<close>, a
  \<open>bool\<close>, a \<open>str\<close>, a \<open>bytes\<close>, or a sequence of floats. The floats themselves are the
  type parameter \<open>'f\<close>.
\<close>

datatype 'f scalar =
  PyInt int | PyFloat 'f | PyBool bool | PyStr string | PyBytes string | PySeq "'f list"

text \<open>
  Two conversions of numpy depend on the floating-point format and on its text
  formats, and are parameters: \<open>as_float64\<close> is the \<open>float64\<close> nearest to an \<open>int\<close>, and
  \<open>as_text\<close> is the element that an array of text holds for a value, or \<open>None\<close> when the
  value cannot be converted and \<open>np.array\<close> raises \<open>UnicodeDecodeError\<close>.
\<close>

record 'f numpy =
  as_float64 :: "int \<Rightarrow> 'f"
  as_text :: "'f scalar \<Rightarrow> 'f scalar option"

text \<open>
  The element type that \<open>np.array\<close> finds for one Python value. An \<open>int\<close> is an \<open>int64\<close>
  when it fits, else a \<open>uint64\<close> when it fits, else a Python object; a sequence next
  to the \<open>int\<close> of the round index makes the rows ragged, which numpy (1.24 and later)
  refuses with \<open>ValueError\<close>.
\<close>

datatype dtype = Bool8 | Int64 | UInt64 | Float64 | Text | Object

fun dtype_of :: "'f scalar \<Rightarrow> py_error + dtype" where
  "dtype_of (PyInt i) =
     Inr (if - (2 ^ 63) \<le> i \<and> i < 2 ^ 63 then Int64
          else if 2 ^ 63 \<le> i \<and> i < 2 ^ 64 then UInt64
          else Object)"
| "dtype_of (PyFloat x) = Inr Float64"
| "dtype_of (PyBool b) = Inr Bool8"
| "dtype_of (PyStr s) = Inr Text"
| "dtype_of (PyBytes s) = Inr Text"
| "dtype_of (PySeq xs) = Inl ValueError"

text \<open>
  The common element type of two: an object next to anything gives objects, text next
  to anything else gives text, a \<open>float64\<close> next to a number gives \<open>float64\<close>, and so do
  an \<open>int64\<close> and a \<open>uint64\<close> together; a \<open>bool\<close> takes the type of the other.
\<close>

fun promote :: "dtype \<Rightarrow> dtype \<Rightarrow> dtype" where
  "promote Object d = Object"
| "promote d Object = Object"
| "promote Text d = Text"
| "promote d Text = Text"
| "promote Float64 d = Float64"
| "promote d Float64 = Float64"
| "promote Bool8 d = d"
| "promote d Bool8 = d"
| "promote Int64 Int64 = Int64"
| "promote UInt64 UInt64 = UInt64"
| "promote Int64 UInt64 = Float64"
| "promote UInt64 Int64 = Float64"

text \<open>The element type of the whole array: every round index and every value counts.\<close>

fun discover :: "'f scalar series \<Rightarrow> py_error + dtype" where
  "discover [] = Inr Bool8"
| "discover ((r, v) # rows) =
     and_then (dtype_of (PyInt r :: 'f scalar))
       (\<lambda>dr. and_then (dtype_of v)
          (\<lambda>dv. and_then (discover rows)
             (\<lambda>d. Inr (promote (promote dr dv) d))))"

text \<open>
  A value as the array of a given element type holds it and as \<open>tolist\<close> gives it back:
  a number in a \<open>float64\<close> array is a \<open>float\<close>, a \<open>bool\<close> in an integer array is 0 or 1,
  any value in an array of text is text, and an array of objects holds the values
  themselves.
\<close>

fun cast :: "'f numpy \<Rightarrow> dtype \<Rightarrow> 'f scalar \<Rightarrow> py_error + 'f scalar" where
  "cast np Float64 (PyInt i) = Inr (PyFloat (as_float64 np i))"
| "cast np Float64 (PyBool b) = Inr (PyFloat (as_float64 np (if b then 1 else 0)))"
| "cast np Int64 (PyBool b) = Inr (PyInt (if b then 1 else 0))"
| "cast np UInt64 (PyBool b) = Inr (PyInt (if b then 1 else 0))"
| "cast np Text v = (case as_text np v of None \<Rightarrow> Inl UnicodeDecodeError | Some s \<Rightarrow> Inr s)"
| "cast np d v = Inr v"

fun cast_rows ::
  "'f numpy \<Rightarrow> dtype \<Rightarrow> 'f scalar series \<Rightarrow> py_error + 'f scalar series" where
  "cast_rows np d [] = Inr []"
| "cast_rows np d ((r, v) # rows) =
     and_then (cast np d v)
       (\<lambda>v'. and_then (cast_rows np d rows) (\<lambda>rows'. Inr ((r, v') # rows')))"

text \<open>
  \<open>np.array(bad_array)\<close>: the element type, and the rows with their values converted.
  The round indices are kept as the \<open>int\<close>s they were: only \<open>temp_all[0,0] == 0\<close> reads
  one, and in an array of numbers that test holds exactly when the \<open>int\<close> is 0, since
  no other \<open>int\<close> of 64 bits converts to the \<open>float64\<close> zero.
\<close>

definition np_array ::
  "'f numpy \<Rightarrow> 'f scalar series \<Rightarrow> py_error + dtype \<times> 'f scalar series" where
  "np_array np bad_array =
     and_then (discover bad_array)
       (\<lambda>d. and_then (cast_rows np d bad_array) (\<lambda>rows. Inr (d, rows)))"

subsection \<open>The structured report\<close>

text \<open>
  \<open>reformat_json\<close>. \<open>temp_all[0,0]\<close> raises \<open>IndexError\<close> when the array has no row. In an
  array of text \<open>temp_all[0,0]\<close> is a string, which is not equal to 0. In an array of
  objects \<open>temp_all[0,1]\<close> is the Python value itself, which has no \<open>tolist\<close>, so the
  line that stores \<open>start\<close> raises \<open>AttributeError\<close>. \<open>temp_all[1:,1]\<close> is the column of
  values without its first row, \<open>temp_all[:,1]\<close> the whole column.
\<close>

definition reformat_json ::
  "'f numpy \<Rightarrow> 'f scalar series \<Rightarrow> py_error + (string \<Rightarrow> 'f scalar json option)" where
  "reformat_json np bad_array =
     and_then (np_array np bad_array)
       (\<lambda>temp_all. case temp_all of (d, rows) \<Rightarrow>
          let temp = Map.empty in
          case rows of
            [] \<Rightarrow> Inl IndexError
          | (round0, value0) # _ \<Rightarrow>
              if d \<noteq> Text \<and> round0 = 0 then
                (let temp = temp(''rounds'' \<mapsto> Arr (map snd (drop 1 rows)))
                 in if d = Object then Inl AttributeError
                    else Inr (temp(''start'' \<mapsto> Num value0)))
              else
                (let temp = temp(''rounds'' \<mapsto> Arr (map snd rows))
                 in Inr temp))"

text \<open>
  \<open>for x in tbl.keys(): temp.update({x: self.reformat_json(tbl[x])})\<close>, the keys still
  to visit being the third argument.
\<close>

fun reformat_table_loop ::
  "'f numpy \<Rightarrow> (string, 'f scalar series) dict \<Rightarrow> string list
     \<Rightarrow> (string \<Rightarrow> 'f scalar json option)
     \<Rightarrow> py_error + (string \<Rightarrow> 'f scalar json option)" where
  "reformat_table_loop np tbl [] temp = Inr temp"
| "reformat_table_loop np tbl (x # xs) temp =
     and_then (dict_getitem tbl x)
       (\<lambda>stored. and_then (reformat_json np stored)
          (\<lambda>c. reformat_table_loop np tbl xs (temp(x \<mapsto> Obj c))))"

definition repr_json ::
  "'f numpy \<Rightarrow> 'f scalar History \<Rightarrow> py_error + (string \<Rightarrow> 'f scalar json option)" where
  "repr_json np self =
     and_then
       (if losses_distributed self \<noteq> [] then
          and_then (reformat_json np (losses_distributed self))
            (\<lambda>c. Inr (Map.empty(''History (loss, distributed)'' \<mapsto> Obj c)))
        else Inr Map.empty)
     (\<lambda>rep. and_then
       (if losses_centralized self \<noteq> [] then
          and_then (reformat_json np (losses_centralized self))
            (\<lambda>c. Inr (rep(''History (loss, centralized)'' \<mapsto> Obj c)))
        else Inr rep)
     (\<lambda>rep. and_then
       (if metrics_distributed_fit self \<noteq> [] then
          and_then
            (reformat_table_loop np (metrics_distributed_fit self)
               (map fst (metrics_distributed_fit self)) Map.empty)
            (\<lambda>temp. Inr (rep(''History (metrics, distributed, fit)'' \<mapsto> Obj temp)))
        else Inr rep)
     (\<lambda>rep. and_then
       (if metrics_distributed self \<noteq> [] then
          and_then
            (reformat_table_loop np (metrics_distributed self)
               (map fst (metrics_distributed self)) Map.empty)
            (\<lambda>temp. Inr (rep(''History (metrics, distributed, evaluate)'' \<mapsto> Obj temp)))
        else Inr rep)
     (\<lambda>rep. and_then
       (if metrics_centralized self \<noteq> [] then
          and_then
            (reformat_table_loop np (metrics_centralized self)
               (map fst (metrics_centralized self)) Map.empty)
            (\<lambda>temp. Inr (rep(''History (metrics, centralized)'' \<mapsto> Obj temp)))
        else Inr rep)
     (\<lambda>rep. Inr rep)))))"

subsection \<open>The text report\<close>

text \<open>
  \<open>__repr__\<close>. The f-string of a loss line is \<open>"\tround {server_round}: {loss}\n"\<close>;
  \<open>fmt\<close> prints a value and \<open>pformat\<close> is \<open>pprint.pformat\<close> on a metrics table.
\<close>

definition loss_line :: "('v \<Rightarrow> string) \<Rightarrow> int \<times> 'v \<Rightarrow> string" where
  "loss_line fmt entry =
     (case entry of (server_round, loss) \<Rightarrow>
        [CHR 0x09] @ ''round '' @ str_int server_round @ '': '' @ fmt loss @ [CHR 0x0A])"

definition History_repr ::
  "('v \<Rightarrow> string) \<Rightarrow> ((string, 'v series) dict \<Rightarrow> string) \<Rightarrow> 'v History \<Rightarrow> py_error + string" where
  "History_repr fmt pformat self =
     and_then
       (if losses_distributed self \<noteq> [] then
          and_then (reduce (\<lambda>a b. a @ b) (map (loss_line fmt) (losses_distributed self)))
            (\<lambda>body. Inr ([] @ (''History (loss, distributed):'' @ [CHR 0x0A] @ body)))
        else Inr [])
     (\<lambda>rep. and_then
       (if losses_centralized self \<noteq> [] then
          and_then (reduce (\<lambda>a b. a @ b) (map (loss_line fmt) (losses_centralized self)))
            (\<lambda>body. Inr (rep @ (''History (loss, centralized):'' @ [CHR 0x0A] @ body)))
        else Inr rep)
     (\<lambda>rep. Inr
       (let rep =
              (if metrics_distributed_fit self \<noteq> [] then
                 rep @ (''History (metrics, distributed, fit):'' @ [CHR 0x0A]
                        @ pformat (metrics_distributed_fit self) @ [CHR 0x0A])
               else rep);
            rep =
              (if metrics_distributed self \<noteq> [] then
                 rep @ (''History (metrics, distributed, evaluate):'' @ [CHR 0x0A]
                        @ pformat (metrics_distributed self) @ [CHR 0x0A])
               else rep);
            rep =
              (if metrics_centralized self \<noteq> [] then
                 rep @ (''History (metrics, centralized):'' @ [CHR 0x0A]
                        @ pformat (metrics_centralized self))
               else rep)
        in rep)))"

subsection \<open>Callers and what they observe\<close>

text \<open>
  A caller's program is a list of calls of the five append methods, run from left to
  right; an exception would end it. A metrics argument is a Python \<open>dict\<close>, in which no
  key occurs twice: \<open>well_formed\<close>.
\<close>

datatype 'v call =
    Add_loss_distributed int 'v
  | Add_loss_centralized int 'v
  | Add_metrics_distributed_fit int "(string, 'v) dict"
  | Add_metrics_distributed int "(string, 'v) dict"
  | Add_metrics_centralized int "(string, 'v) dict"

fun do_call :: "'v History \<Rightarrow> 'v call \<Rightarrow> py_error + 'v History" where
  "do_call h (Add_loss_distributed r l) = Inr (add_loss_distributed h r l)"
| "do_call h (Add_loss_centralized r l) = Inr (add_loss_centralized h r l)"
| "do_call h (Add_metrics_distributed_fit r m) = add_metrics_distributed_fit h r m"
| "do_call h (Add_metrics_distributed r m) = add_metrics_distributed h r m"
| "do_call h (Add_metrics_centralized r m) = add_metrics_centralized h r m"

fun do_calls :: "'v History \<Rightarrow> 'v call list \<Rightarrow> py_error + 'v History" where
  "do_calls h [] = Inr h"
| "do_calls h (c # cs) = and_then (do_call h c) (\<lambda>h'. do_calls h' cs)"

fun well_formed :: "'v call \<Rightarrow> bool" where
  "well_formed (Add_loss_distributed r l) = True"
| "well_formed (Add_loss_centralized r l) = True"
| "well_formed (Add_metrics_distributed_fit r m) = distinct (map fst m)"
| "well_formed (Add_metrics_distributed r m) = distinct (map fst m)"
| "well_formed (Add_metrics_centralized r m) = distinct (map fst m)"

text \<open>
  The series are read per channel: the two loss series, and one series for each metric
  name of each table. A name that is not a key of its table has no entries.
\<close>

definition series_of :: "(string, 'v series) dict \<Rightarrow> string \<Rightarrow> 'v series" where
  "series_of tbl key = (case map_of tbl key of None \<Rightarrow> [] | Some stored \<Rightarrow> stored)"

datatype channel =
    Loss_distributed
  | Loss_centralized
  | Metric_distributed_fit string
  | Metric_distributed string
  | Metric_centralized string

fun read_series :: "'v History \<Rightarrow> channel \<Rightarrow> 'v series" where
  "read_series h Loss_distributed = losses_distributed h"
| "read_series h Loss_centralized = losses_centralized h"
| "read_series h (Metric_distributed_fit key) = series_of (metrics_distributed_fit h) key"
| "read_series h (Metric_distributed key) = series_of (metrics_distributed h) key"
| "read_series h (Metric_centralized key) = series_of (metrics_centralized h) key"

fun has_key :: "'v History \<Rightarrow> channel \<Rightarrow> bool" where
  "has_key h Loss_distributed = True"
| "has_key h Loss_centralized = True"
| "has_key h (Metric_distributed_fit key) = dict_contains key (metrics_distributed_fit h)"
| "has_key h (Metric_distributed key) = dict_contains key (metrics_distributed h)"
| "has_key h (Metric_centralized key) = dict_contains key (metrics_centralized h)"

text \<open>
  A call addresses a channel when it is a call of the channel's append method and, for
  a metric channel, its argument has the channel's name among its keys; \<open>passed\<close> is the
  pair it then passes for the channel.
\<close>

fun addresses :: "channel \<Rightarrow> 'v call \<Rightarrow> bool" where
  "addresses Loss_distributed (Add_loss_distributed r l) = True"
| "addresses Loss_centralized (Add_loss_centralized r l) = True"
| "addresses (Metric_distributed_fit key) (Add_metrics_distributed_fit r m) = dict_contains key m"
| "addresses (Metric_distributed key) (Add_metrics_distributed r m) = dict_contains key m"
| "addresses (Metric_centralized key) (Add_metrics_centralized r m) = dict_contains key m"
| "addresses _ _ = False"

fun passed :: "channel \<Rightarrow> 'v call \<Rightarrow> 'v series" where
  "passed Loss_distributed (Add_loss_distributed r l) = [(r, l)]"
| "passed Loss_centralized (Add_loss_centralized r l) = [(r, l)]"
| "passed (Metric_distributed_fit key) (Add_metrics_distributed_fit r m) =
     (case map_of m key of None \<Rightarrow> [] | Some v \<Rightarrow> [(r, v)])"
| "passed (Metric_distributed key) (Add_metrics_distributed r m) =
     (case map_of m key of None \<Rightarrow> [] | Some v \<Rightarrow> [(r, v)])"
| "passed (Metric_centralized key) (Add_metrics_centralized r m) =
     (case map_of m key of None \<Rightarrow> [] | Some v \<Rightarrow> [(r, v)])"
| "passed _ _ = []"

text \<open>No series stored in a table is empty.\<close>

definition nonempty_series :: "(string, 'v series) dict \<Rightarrow> bool" where
  "nonempty_series tbl = list_all (\<lambda>(key, stored). stored \<noteq> []) tbl"

subsection \<open>The append loop in closed form\<close>

text \<open>
  The table that the loop of an \<open>add_metrics_*\<close> method leaves, and the object that a
  call leaves: the methods are shown below to return exactly these, without an
  exception.
\<close>

fun appended ::
  "(string, 'v series) dict \<Rightarrow> int \<Rightarrow> (string, 'v) dict \<Rightarrow> string list
     \<Rightarrow> (string, 'v series) dict" where
  "appended tbl r m [] = tbl"
| "appended tbl r m (k # ks) =
     (case map_of m k of
        None \<Rightarrow> tbl
      | Some v \<Rightarrow> appended (dict_setitem tbl k (series_of tbl k @ [(r, v)])) r m ks)"

fun after_call :: "'v History \<Rightarrow> 'v call \<Rightarrow> 'v History" where
  "after_call h (Add_loss_distributed r l) = add_loss_distributed h r l"
| "after_call h (Add_loss_centralized r l) = add_loss_centralized h r l"
| "after_call h (Add_metrics_distributed_fit r m) =
     h\<lparr>metrics_distributed_fit := appended (metrics_distributed_fit h) r m (map fst m)\<rparr>"
| "after_call h (Add_metrics_distributed r m) =
     h\<lparr>metrics_distributed := appended (metrics_distributed h) r m (map fst m)\<rparr>"
| "after_call h (Add_metrics_centralized r m) =
     h\<lparr>metrics_centralized := appended (metrics_centralized h) r m (map fst m)\<rparr>"

subsection \<open>The structured report in closed form\<close>

text \<open>
  \<open>reformat_json\<close> accepts a series when it returns a dictionary for it, and the object
  when it accepts every series that \<open>repr_json\<close> hands to it: each loss series that is
  not empty and each series stored in a table.
\<close>

definition accepts :: "'f numpy \<Rightarrow> 'f scalar series \<Rightarrow> bool" where
  "accepts np stored = (case reformat_json np stored of Inl e \<Rightarrow> False | Inr c \<Rightarrow> True)"

definition accepts_all :: "'f numpy \<Rightarrow> 'f scalar History \<Rightarrow> bool" where
  "accepts_all np h \<longleftrightarrow>
     (losses_distributed h = [] \<or> accepts np (losses_distributed h))
     \<and> (losses_centralized h = [] \<or> accepts np (losses_centralized h))
     \<and> list_all (\<lambda>(key, stored). accepts np stored) (metrics_distributed_fit h)
     \<and> list_all (\<lambda>(key, stored). accepts np stored) (metrics_distributed h)
     \<and> list_all (\<lambda>(key, stored). accepts np stored) (metrics_centralized h)"

text \<open>
  Series that numpy stores as they are: floats with round indices of 64 bits, which
  make a \<open>float64\<close> array, and \<open>int\<close>s that fit \<open>int64\<close> together with their round
  indices, which make an \<open>int64\<close> array.
\<close>

fun is_float :: "'f scalar \<Rightarrow> bool" where
  "is_float (PyFloat x) = True"
| "is_float _ = False"

fun is_int64 :: "'f scalar \<Rightarrow> bool" where
  "is_int64 (PyInt i) = (- (2 ^ 63) \<le> i \<and> i < 2 ^ 63)"
| "is_int64 _ = False"

definition float_series :: "'f scalar series \<Rightarrow> bool" where
  "float_series stored =
     list_all (\<lambda>(r, v). - (2 ^ 63) \<le> r \<and> r < 2 ^ 64 \<and> is_float v) stored"

definition int_series :: "'f scalar series \<Rightarrow> bool" where
  "int_series stored =
     list_all (\<lambda>(r, v). - (2 ^ 63) \<le> r \<and> r < 2 ^ 63 \<and> is_int64 v) stored"

definition plain_series :: "'f scalar series \<Rightarrow> bool" where
  "plain_series stored \<longleftrightarrow> float_series stored \<or> int_series stored"

definition plain_ledger :: "'f scalar History \<Rightarrow> bool" where
  "plain_ledger h \<longleftrightarrow>
     plain_series (losses_distributed h) \<and> plain_series (losses_centralized h)
     \<and> list_all (\<lambda>(key, stored). plain_series stored) (metrics_distributed_fit h)
     \<and> list_all (\<lambda>(key, stored). plain_series stored) (metrics_distributed h)
     \<and> list_all (\<lambda>(key, stored). plain_series stored) (metrics_centralized h)"

text \<open>
  The dictionary that \<open>reformat_json\<close> returns for a series, the one that the loop over
  a table builds, and the report: \<open>repr_json\<close> is shown below to return \<open>structured\<close>
  on every object that \<open>reformat_json\<close> accepts.
\<close>

definition collapsed :: "'f numpy \<Rightarrow> 'f scalar series \<Rightarrow> string \<Rightarrow> 'f scalar json option" where
  "collapsed np stored = (case reformat_json np stored of Inl e \<Rightarrow> Map.empty | Inr c \<Rightarrow> c)"

definition collapsed_table ::
  "'f numpy \<Rightarrow> (string, 'f scalar series) dict \<Rightarrow> string \<Rightarrow> 'f scalar json option" where
  "collapsed_table np tbl key =
     (case map_of tbl key of
        None \<Rightarrow> None
      | Some stored \<Rightarrow> Some (Obj (collapsed np stored)))"

definition with_entry :: "(string \<Rightarrow> 'a option) \<Rightarrow> string \<Rightarrow> 'a option \<Rightarrow> string \<Rightarrow> 'a option" where
  "with_entry rep name entry = (case entry of None \<Rightarrow> rep | Some v \<Rightarrow> rep(name \<mapsto> v))"

definition loss_entry :: "'f numpy \<Rightarrow> 'f scalar series \<Rightarrow> 'f scalar json option" where
  "loss_entry np stored = (if stored = [] then None else Some (Obj (collapsed np stored)))"

definition metrics_entry ::
  "'f numpy \<Rightarrow> (string, 'f scalar series) dict \<Rightarrow> 'f scalar json option" where
  "metrics_entry np tbl = (if tbl = [] then None else Some (Obj (collapsed_table np tbl)))"

definition structured :: "'f numpy \<Rightarrow> 'f scalar History \<Rightarrow> string \<Rightarrow> 'f scalar json option" where
  "structured np h =
     with_entry (with_entry (with_entry (with_entry (with_entry Map.empty
       ''History (loss, distributed)'' (loss_entry np (losses_distributed h)))
       ''History (loss, centralized)'' (loss_entry np (losses_centralized h)))
       ''History (metrics, distributed, fit)'' (metrics_entry np (metrics_distributed_fit h)))
       ''History (metrics, distributed, evaluate)'' (metrics_entry np (metrics_distributed h)))
       ''History (metrics, centralized)'' (metrics_entry np (metrics_centralized h))"

definition series_nonempty :: "'v History \<Rightarrow> bool" where
  "series_nonempty h \<longleftrightarrow>
     nonempty_series (metrics_distributed_fit h) \<and> nonempty_series (metrics_distributed h)
     \<and> nonempty_series (metrics_centralized h)"

text \<open>
  In the examples the two conversions of numpy are the identity: the examples convert
  no \<open>int\<close> beyond \<open>2 ^ 53\<close> to a \<open>float64\<close> and no value but short text to text, and
  numpy keeps those as they are.
\<close>

definition np_example :: "real numpy" where
  "np_example = \<lparr> as_float64 = of_int, as_text = Some \<rparr>"

subsection \<open>The sections of the text report\<close>

text \<open>
  A section of the text report is given by its name, whether it is empty, and its
  rendered entries. An empty section emits nothing; any other emits its header
  line, the name followed by a colon, and then the entries.
\<close>

definition emitted :: "string \<times> bool \<times> string \<Rightarrow> string" where
  "emitted s = (case s of (name, absent, body) \<Rightarrow>
     if absent then [] else name @ '':'' @ [CHR 0x0A] @ body)"

text \<open>In the examples \<open>pprint.pformat\<close> is replaced by a printer of the names of a table.\<close>

definition names_only :: "(string, 'v series) dict \<Rightarrow> string" where
  "names_only tbl = concat (map fst tbl)"

subsection \<open>The read methods on the object\<close>

text \<open>
  Python passes the object to \<open>repr_json\<close>, \<open>reformat_json\<close> and \<open>__repr__\<close> as it does to
  the append methods, so a read method could assign to an attribute. Here the two
  reports are written once more with the object threaded through every step: a
  method takes the object and returns its result, or the exception, together with
  the object it leaves. \<open>attribute\<close> reads \<open>self.field\<close>, \<open>attempt\<close> is a computation on
  values that does not involve the object, and \<open>next_do\<close> runs the rest of the body
  on the object that the step before left.
\<close>

type_synonym ('s, 'a) py_method = "'s \<Rightarrow> (py_error + 'a) \<times> 's"

definition returns :: "'a \<Rightarrow> ('s, 'a) py_method" where
  "returns a self = (Inr a, self)"

definition attempt :: "py_error + 'a \<Rightarrow> ('s, 'a) py_method" where
  "attempt r self = (r, self)"

definition attribute :: "('s \<Rightarrow> 'a) \<Rightarrow> ('s, 'a) py_method" where
  "attribute field self = (Inr (field self), self)"

definition next_do :: "('s, 'a) py_method \<Rightarrow> ('a \<Rightarrow> ('s, 'b) py_method) \<Rightarrow> ('s, 'b) py_method" where
  "next_do m f self =
     (case m self of (Inl e, self') \<Rightarrow> (Inl e, self') | (Inr a, self') \<Rightarrow> f a self')"

definition reformat_json_method ::
  "'f numpy \<Rightarrow> 'f scalar series
     \<Rightarrow> ('f scalar History, string \<Rightarrow> 'f scalar json option) py_method" where
  "reformat_json_method np bad_array = attempt (reformat_json np bad_array)"

fun reformat_table_method ::
  "'f numpy \<Rightarrow> ('f scalar History \<Rightarrow> (string, 'f scalar series) dict) \<Rightarrow> string list
     \<Rightarrow> (string \<Rightarrow> 'f scalar json option)
     \<Rightarrow> ('f scalar History, string \<Rightarrow> 'f scalar json option) py_method" where
  "reformat_table_method np table [] temp = returns temp"
| "reformat_table_method np table (x # xs) temp =
     next_do (attribute table)
       (\<lambda>tbl. next_do (attempt (dict_getitem tbl x))
          (\<lambda>stored. next_do (reformat_json_method np stored)
             (\<lambda>c. reformat_table_method np table xs (temp(x \<mapsto> Obj c)))))"

definition repr_json_method ::
  "'f numpy \<Rightarrow> ('f scalar History, string \<Rightarrow> 'f scalar json option) py_method" where
  "repr_json_method np =
     next_do (attribute losses_distributed)
     (\<lambda>guard. next_do
       (if guard \<noteq> [] then
          next_do (attribute losses_distributed)
            (\<lambda>stored. next_do (reformat_json_method np stored)
               (\<lambda>c. returns (Map.empty(''History (loss, distributed)'' \<mapsto> Obj c))))
        else returns Map.empty)
     (\<lambda>rep. next_do (attribute losses_centralized)
     (\<lambda>guard. next_do
       (if guard \<noteq> [] then
          next_do (attribute losses_centralized)
            (\<lambda>stored. next_do (reformat_json_method np stored)
               (\<lambda>c. returns (rep(''History (loss, centralized)'' \<mapsto> Obj c))))
        else returns rep)
     (\<lambda>rep. next_do (attribute metrics_distributed_fit)
     (\<lambda>guard. next_do
       (if guard \<noteq> [] then
          next_do (attribute metrics_distributed_fit)
            (\<lambda>tbl. next_do (reformat_table_method np metrics_distributed_fit (map fst tbl) Map.empty)
               (\<lambda>temp. returns (rep(''History (metrics, distributed, fit)'' \<mapsto> Obj temp))))
        else returns rep)
     (\<lambda>rep. next_do (attribute metrics_distributed)
     (\<lambda>guard. next_do
       (if guard \<noteq> [] then
          next_do (attribute metrics_distributed)
            (\<lambda>tbl. next_do (reformat_table_method np metrics_distributed (map fst tbl) Map.empty)
               (\<lambda>temp. returns (rep(''History (metrics, distributed, evaluate)'' \<mapsto> Obj temp))))
        else returns rep)
     (\<lambda>rep. next_do (attribute metrics_centralized)
     (\<lambda>guard. next_do
       (if guard \<noteq> [] then
          next_do (attribute metrics_centralized)
            (\<lambda>tbl. next_do (reformat_table_method np metrics_centralized (map fst tbl) Map.empty)
               (\<lambda>temp. returns (rep(''History (metrics, centralized)'' \<mapsto> Obj temp))))
        else returns rep)
     (\<lambda>rep. returns rep))))))))))"

definition History_repr_method ::
  "('v \<Rightarrow> string) \<Rightarrow> ((string, 'v series) dict \<Rightarrow> string) \<Rightarrow> ('v History, string) py_method" where
  "History_repr_method fmt pformat =
     next_do (attribute losses_distributed)
     (\<lambda>guard. next_do
       (if guard \<noteq> [] then
          next_do (attribute losses_distributed)
            (\<lambda>stored. next_do (attempt (reduce (\<lambda>a b. a @ b) (map (loss_line fmt) stored)))
               (\<lambda>body. returns ([] @ (''History (loss, distributed):'' @ [CHR 0x0A] @ body))))
        else returns [])
     (\<lambda>rep. next_do (attribute losses_centralized)
     (\<lambda>guard. next_do
       (if guard \<noteq> [] then
          next_do (attribute losses_centralized)
            (\<lambda>stored. next_do (attempt (reduce (\<lambda>a b. a @ b) (map (loss_line fmt) stored)))
               (\<lambda>body. returns (rep @ (''History (loss, centralized):'' @ [CHR 0x0A] @ body))))
        else returns rep)
     (\<lambda>rep. next_do (attribute metrics_distributed_fit)
     (\<lambda>guard. next_do
       (if guard \<noteq> [] then
          next_do (attribute metrics_distributed_fit)
            (\<lambda>tbl. returns (rep @ (''History (metrics, distributed, fit):'' @ [CHR 0x0A]
                                    @ pformat tbl @ [CHR 0x0A])))
        else returns rep)
     (\<lambda>rep. next_do (attribute metrics_distributed)
     (\<lambda>guard. next_do
       (if guard \<noteq> [] then
          next_do (attribute metrics_distributed)
            (\<lambda>tbl. returns (rep @ (''History (metrics, distributed, evaluate):'' @ [CHR 0x0A]
                                    @ pformat tbl @ [CHR 0x0A])))
        else returns rep)
     (\<lambda>rep. next_do (attribute metrics_centralized)
     (\<lambda>guard. next_do
       (if guard \<noteq> [] then
          next_do (attribute metrics_centralized)
            (\<lambda>tbl. returns (rep @ (''History (metrics, centralized):'' @ [CHR 0x0A]
                                    @ pformat tbl)))
        else returns rep)
     (\<lambda>rep. returns rep))))))))))"

section \<open>Dictionaries and the append loop\<close>

lemma and_then_Inr [simp]: "and_then (Inr a) f = f a"
  by (simp add: and_then_def)

lemma and_then_Inl [simp]: "and_then (Inl e) f = Inl e"
  by (simp add: and_then_def)

lemma dict_getitem_map_of:
  "dict_getitem d key = (case map_of d key of None \<Rightarrow> Inl KeyError | Some v \<Rightarrow> Inr v)"
  by (induction d) auto

lemma map_of_dict_setitem [simp]: "map_of (dict_setitem d key v) = (map_of d)(key \<mapsto> v)"
  by (induction d) (auto simp: fun_eq_iff)

lemma keys_dict_setitem:
  "map fst (dict_setitem d key v) = (if key \<in> set (map fst d) then map fst d else map fst d @ [key])"
  by (induction d) force+

lemma set_keys_dict_setitem [simp]: "fst ` set (dict_setitem d key v) = insert key (fst ` set d)"
  by (simp add: dom_map_of_conv_image_fst [symmetric])

lemma dict_setitem_twice [simp]: "dict_setitem (dict_setitem d key a) key b = dict_setitem d key b"
  by (induction d) auto

lemma dict_contains_map_of: "dict_contains key d \<longleftrightarrow> map_of d key \<noteq> None"
  by (simp add: dict_contains_def map_of_eq_None_iff)

lemma append_metric_Inr:
  "append_metric tbl key entry = Inr (dict_setitem tbl key (series_of tbl key @ [entry]))"
  by (auto simp: append_metric_def series_of_def dict_getitem_map_of dict_contains_map_of)

lemma add_metrics_loop_Inr:
  "set keys \<subseteq> fst ` set m \<Longrightarrow> add_metrics_loop tbl r m keys = Inr (appended tbl r m keys)"
proof (induction keys arbitrary: tbl)
  case Nil
  show ?case by simp
next
  case (Cons k ks)
  from Cons.prems obtain v where v: "map_of m k = Some v"
    by (cases "map_of m k") (auto simp: map_of_eq_None_iff)
  with Cons show ?case
    by (simp add: dict_getitem_map_of append_metric_Inr)
qed

lemma series_of_dict_setitem [simp]:
  "series_of (dict_setitem tbl k stored) k' = (if k' = k then stored else series_of tbl k')"
  by (simp add: series_of_def)

lemma map_of_appended_other:
  "k \<notin> set keys \<Longrightarrow> map_of (appended tbl r m keys) k = map_of tbl k"
  by (induction keys arbitrary: tbl) (auto split: option.splits)

lemma series_of_appended:
  "distinct keys \<Longrightarrow> set keys \<subseteq> fst ` set m \<Longrightarrow>
   series_of (appended tbl r m keys) k =
     series_of tbl k @
       (if k \<in> set keys then (case map_of m k of None \<Rightarrow> [] | Some v \<Rightarrow> [(r, v)]) else [])"
proof (induction keys arbitrary: tbl)
  case Nil
  show ?case by simp
next
  case (Cons a ks)
  then obtain v where v: "map_of m a = Some v"
    by (cases "map_of m a") (auto simp: map_of_eq_None_iff)
  from Cons.prems have ks: "distinct ks" "set ks \<subseteq> fst ` set m" "a \<notin> set ks"
    by auto
  show ?case
    using Cons.IH [OF ks(1,2)] ks(3) v by auto
qed

lemma series_of_appended_all:
  assumes "distinct (map fst m)"
  shows "series_of (appended tbl r m (map fst m)) k =
     series_of tbl k @ (case map_of m k of None \<Rightarrow> [] | Some v \<Rightarrow> [(r, v)])"
proof (cases "map_of m k")
  case None
  then have "k \<notin> set (map fst m)"
    by (simp add: map_of_eq_None_iff)
  with None assms show ?thesis
    by (simp add: series_of_appended)
next
  case (Some v)
  then have "k \<in> set (map fst m)"
    by (metis map_of_eq_None_iff option.distinct(1) list.set_map)
  with Some assms show ?thesis
    by (simp add: series_of_appended)
qed

lemma keys_appended:
  "set keys \<subseteq> fst ` set m \<Longrightarrow>
   fst ` set (appended tbl r m keys) = fst ` set tbl \<union> set keys"
proof (induction keys arbitrary: tbl)
  case Nil
  show ?case by simp
next
  case (Cons a ks)
  then obtain v where v: "map_of m a = Some v"
    by (cases "map_of m a") (auto simp: map_of_eq_None_iff)
  from Cons.prems have "set ks \<subseteq> fst ` set m" by simp
  from Cons.IH [OF this] v show ?case by simp
qed

lemma prefix_series_appended:
  "prefix (series_of tbl k) (series_of (appended tbl r m keys) k)"
proof (induction keys arbitrary: tbl)
  case Nil
  show ?case by simp
next
  case (Cons a ks)
  show ?case
  proof (cases "map_of m a")
    case None
    then show ?thesis by simp
  next
    case (Some v)
    have "prefix (series_of tbl k) (series_of (dict_setitem tbl a (series_of tbl a @ [(r, v)])) k)"
      by simp
    also have "prefix \<dots> (series_of (appended (dict_setitem tbl a (series_of tbl a @ [(r, v)])) r m ks) k)"
      by (rule Cons.IH)
    finally show ?thesis using Some by simp
  qed
qed

lemma keys_appended_mono:
  "k \<in> fst ` set tbl \<Longrightarrow> k \<in> fst ` set (appended tbl r m keys)"
  by (induction keys arbitrary: tbl) (auto split: option.splits)

lemma nonempty_series_dict_setitem:
  "nonempty_series tbl \<Longrightarrow> stored \<noteq> [] \<Longrightarrow> nonempty_series (dict_setitem tbl key stored)"
  by (induction tbl) (auto simp: nonempty_series_def)

lemma nonempty_series_appended:
  "nonempty_series tbl \<Longrightarrow> nonempty_series (appended tbl r m keys)"
  by (induction keys arbitrary: tbl) (auto split: option.splits intro: nonempty_series_dict_setitem)

lemma distinct_dict_setitem:
  "distinct (map fst d) \<Longrightarrow> distinct (map fst (dict_setitem d key v))"
  by (simp add: keys_dict_setitem)

lemma distinct_appended:
  "distinct (map fst tbl) \<Longrightarrow> distinct (map fst (appended tbl r m keys))"
  by (induction keys arbitrary: tbl) (auto split: option.splits intro: distinct_dict_setitem)

lemma add_metrics_distributed_fit_Inr:
  "add_metrics_distributed_fit h r m =
     Inr (h\<lparr>metrics_distributed_fit := appended (metrics_distributed_fit h) r m (map fst m)\<rparr>)"
  by (simp add: add_metrics_distributed_fit_def add_metrics_loop_Inr)

lemma add_metrics_distributed_Inr:
  "add_metrics_distributed h r m =
     Inr (h\<lparr>metrics_distributed := appended (metrics_distributed h) r m (map fst m)\<rparr>)"
  by (simp add: add_metrics_distributed_def add_metrics_loop_Inr)

lemma add_metrics_centralized_Inr:
  "add_metrics_centralized h r m =
     Inr (h\<lparr>metrics_centralized := appended (metrics_centralized h) r m (map fst m)\<rparr>)"
  by (simp add: add_metrics_centralized_def add_metrics_loop_Inr)

lemma do_call_Inr: "do_call h c = Inr (after_call h c)"
  by (cases c)
    (simp_all add: add_metrics_distributed_fit_Inr add_metrics_distributed_Inr
       add_metrics_centralized_Inr)

lemma do_calls_Inr: "do_calls h cs = Inr (foldl after_call h cs)"
  by (induction cs arbitrary: h) (simp_all add: do_call_Inr)

lemma passed_length: "length (passed ch c) = (if addresses ch c then 1 else 0)"
  by (cases "(ch, c)" rule: passed.cases)
     (auto simp: dict_contains_map_of split: option.splits)

lemma read_series_after_call:
  "well_formed c \<Longrightarrow> read_series (after_call h c) ch = read_series h ch @ passed ch c"
  by (cases "(ch, c)" rule: passed.cases)
     (auto simp: add_loss_distributed_def add_loss_centralized_def series_of_appended_all)

lemma read_series_after_calls:
  "list_all well_formed cs \<Longrightarrow>
   read_series (foldl after_call h cs) ch = read_series h ch @ concat (map (passed ch) cs)"
  by (induction cs arbitrary: h) (simp_all add: read_series_after_call)

lemma length_passed_calls:
  "length (concat (map (passed ch) cs)) = length (filter (addresses ch) cs)"
  by (induction cs) (simp_all add: passed_length)

lemma has_key_after_call: "has_key h ch \<Longrightarrow> has_key (after_call h c) ch"
  by (cases "(ch, c)" rule: passed.cases)
     (auto simp: dict_contains_def add_loss_distributed_def add_loss_centralized_def
        intro: keys_appended_mono)

lemma has_key_after_calls: "has_key h ch \<Longrightarrow> has_key (foldl after_call h cs) ch"
  by (induction cs arbitrary: h) (simp_all add: has_key_after_call)

lemma addressed_has_key: "addresses ch c \<Longrightarrow> has_key (after_call h c) ch"
  by (cases "(ch, c)" rule: passed.cases)
     (auto simp: dict_contains_def keys_appended)

lemma prefix_after_call: "prefix (read_series h ch) (read_series (after_call h c) ch)"
  by (cases "(ch, c)" rule: passed.cases)
     (auto simp: add_loss_distributed_def add_loss_centralized_def prefix_series_appended)

lemma prefix_after_calls: "prefix (read_series h ch) (read_series (foldl after_call h cs) ch)"
proof (induction cs arbitrary: h)
  case Nil
  show ?case by simp
next
  case (Cons c cs)
  have "prefix (read_series h ch) (read_series (after_call h c) ch)"
    by (rule prefix_after_call)
  also have "prefix \<dots> (read_series (foldl after_call (after_call h c) cs) ch)"
    by (rule Cons.IH)
  finally show ?case by simp
qed

lemma map_of_appended_unaddressed:
  "\<not> dict_contains k m \<Longrightarrow> map_of (appended tbl r m (map fst m)) k = map_of tbl k"
  by (simp add: dict_contains_def map_of_appended_other)

lemma unaddressed_table:
  assumes "\<not> dict_contains k m"
  shows "series_of (appended tbl r m (map fst m)) k = series_of tbl k"
    and "dict_contains k (appended tbl r m (map fst m)) = dict_contains k tbl"
  using map_of_appended_unaddressed [OF assms, of tbl r]
  by (simp_all add: series_of_def dict_contains_map_of)

lemma unaddressed_after_call:
  "\<not> addresses ch c \<Longrightarrow>
   read_series (after_call h c) ch = read_series h ch \<and> has_key (after_call h c) ch = has_key h ch"
  by (cases "(ch, c)" rule: passed.cases)
     (simp_all add: unaddressed_table add_loss_distributed_def add_loss_centralized_def)

lemma addressed_once_has_key:
  assumes "length (filter (addresses ch) cs) = 1"
  shows "has_key (foldl after_call h cs) ch"
proof -
  from assms have "filter (addresses ch) cs \<noteq> []"
    by auto
  then obtain c where "c \<in> set cs" and c: "addresses ch c"
    by (auto simp: filter_empty_conv)
  then obtain xs ys where "cs = xs @ c # ys"
    by (auto simp: in_set_conv_decomp)
  then have "foldl after_call h cs = foldl after_call (after_call (foldl after_call h xs) c) ys"
    by simp
  with addressed_has_key [OF c] show ?thesis
    by (simp add: has_key_after_calls)
qed

section \<open>The round-collapsing transform\<close>

lemma reformat_json_empty: "reformat_json np [] = Inl IndexError"
  by (simp add: reformat_json_def np_array_def)

lemma discover_error: "discover stored = Inl e \<Longrightarrow> e = ValueError"
proof (induction stored)
  case Nil
  then show ?case by simp
next
  case (Cons row rows)
  obtain r v where row: "row = (r, v)"
    by (cases row)
  from Cons show ?case
    unfolding row by (cases v; cases "discover rows") (auto split: if_splits)
qed

lemma cast_error: "cast np d v = Inl e \<Longrightarrow> e = UnicodeDecodeError"
  by (cases "(np, d, v)" rule: cast.cases) (auto split: option.splits)

lemma cast_rows_error: "cast_rows np d stored = Inl e \<Longrightarrow> e = UnicodeDecodeError"
proof (induction stored)
  case Nil
  then show ?case by simp
next
  case (Cons row rows)
  obtain r v where row: "row = (r, v)"
    by (cases row)
  from Cons show ?case
    unfolding row
    by (cases "cast np d v"; cases "cast_rows np d rows") (auto dest: cast_error)
qed

lemma cast_rows_Nil: "cast_rows np d stored = Inr [] \<Longrightarrow> stored = []"
proof (cases stored)
  case Nil
  then show ?thesis by simp
next
  case (Cons row rows)
  obtain r v where row: "row = (r, v)"
    by (cases row)
  assume "cast_rows np d stored = Inr []"
  then show ?thesis
    unfolding Cons row
    by (cases "cast np d v"; cases "cast_rows np d rows") auto
qed

lemma reformat_json_error:
  assumes "reformat_json np stored = Inl e"
  shows "stored = [] \<and> e = IndexError
         \<or> stored \<noteq> [] \<and> (e = AttributeError \<or> e = ValueError \<or> e = UnicodeDecodeError)"
proof (cases "stored = []")
  case True
  with assms show ?thesis
    by (simp add: reformat_json_empty)
next
  case False
  show ?thesis
  proof (cases "discover stored")
    case (Inl e')
    with assms False show ?thesis
      by (auto simp: reformat_json_def np_array_def dest: discover_error)
  next
    case d: (Inr d)
    show ?thesis
    proof (cases "cast_rows np d stored")
      case (Inl e')
      with assms False d show ?thesis
        by (auto simp: reformat_json_def np_array_def dest: cast_rows_error)
    next
      case (Inr rows)
      with False have "rows \<noteq> []"
        by (auto dest: cast_rows_Nil)
      with assms False d Inr show ?thesis
        by (cases rows) (auto simp: reformat_json_def np_array_def Let_def split: if_splits)
    qed
  qed
qed

lemma reformat_json_not_IndexError: "stored \<noteq> [] \<Longrightarrow> reformat_json np stored \<noteq> Inl IndexError"
  by (auto dest: reformat_json_error)

lemma discover_float_series:
  "float_series stored \<Longrightarrow> discover stored = Inr (if stored = [] then Bool8 else Float64)"
proof (induction stored)
  case Nil
  show ?case by simp
next
  case (Cons row rows)
  obtain r v where row: "row = (r, v)"
    by (cases row)
  from Cons.prems have "float_series rows" and r: "- (2 ^ 63) \<le> r" "r < 2 ^ 64"
    and "is_float v"
    by (simp_all add: float_series_def row)
  then obtain x where v: "v = PyFloat x"
    by (cases v) simp_all
  from Cons.IH [OF \<open>float_series rows\<close>] r show ?case
    by (simp add: row v)
qed

lemma cast_rows_float_series: "float_series stored \<Longrightarrow> cast_rows np Float64 stored = Inr stored"
proof (induction stored)
  case Nil
  show ?case by simp
next
  case (Cons row rows)
  obtain r v where row: "row = (r, v)"
    by (cases row)
  from Cons.prems have "float_series rows" and "is_float v"
    by (simp_all add: float_series_def row)
  then obtain x where v: "v = PyFloat x"
    by (cases v) simp_all
  from Cons.IH [OF \<open>float_series rows\<close>] show ?case
    by (simp add: row v)
qed

lemma discover_int_series:
  "int_series stored \<Longrightarrow> discover stored = Inr (if stored = [] then Bool8 else Int64)"
proof (induction stored)
  case Nil
  show ?case by simp
next
  case (Cons row rows)
  obtain r v where row: "row = (r, v)"
    by (cases row)
  from Cons.prems have "int_series rows" and r: "- (2 ^ 63) \<le> r" "r < 2 ^ 63"
    and "is_int64 v"
    by (simp_all add: int_series_def row)
  then obtain i where v: "v = PyInt i" and i: "- (2 ^ 63) \<le> i" "i < 2 ^ 63"
    by (cases v) simp_all
  from Cons.IH [OF \<open>int_series rows\<close>] r i show ?case
    by (simp add: row v)
qed

lemma cast_rows_int_series: "int_series stored \<Longrightarrow> cast_rows np Int64 stored = Inr stored"
proof (induction stored)
  case Nil
  show ?case by simp
next
  case (Cons row rows)
  obtain r v where row: "row = (r, v)"
    by (cases row)
  from Cons.prems have "int_series rows" and "is_int64 v"
    by (simp_all add: int_series_def row)
  then obtain i where v: "v = PyInt i"
    by (cases v) simp_all
  from Cons.IH [OF \<open>int_series rows\<close>] show ?case
    by (simp add: row v)
qed

lemma np_array_plain_series:
  assumes "plain_series stored" and "stored \<noteq> []"
  shows "np_array np stored = Inr (Float64, stored) \<or> np_array np stored = Inr (Int64, stored)"
  using assms
  by (auto simp: plain_series_def np_array_def discover_float_series cast_rows_float_series
        discover_int_series cast_rows_int_series)

lemma reformat_json_plain_series:
  assumes "plain_series stored" and "stored \<noteq> []"
  shows "reformat_json np stored =
     Inr (if fst (hd stored) = 0
          then [''start'' \<mapsto> Num (snd (hd stored)), ''rounds'' \<mapsto> Arr (map snd (tl stored))]
          else [''rounds'' \<mapsto> Arr (map snd stored)])"
proof -
  from assms(2) obtain r v rows where stored: "stored = (r, v) # rows"
    by (cases stored) auto
  from np_array_plain_series [OF assms, of np] show ?thesis
    unfolding stored
    by (elim disjE) (auto simp: reformat_json_def Let_def drop_Suc fun_eq_iff)
qed

text \<open>
  Claim C1, as the code has it. On a series with at least one entry whose values
  numpy stores as they are (floats with round indices of 64 bits, or \<open>int\<close>s that fit
  \<open>int64\<close> as their round indices do), \<open>reformat_json\<close> returns
  \<open>{"start": v0, "rounds": [v1, ..., vn]}\<close> when the round index of the first entry is 0,
  and \<open>{"rounds": [v0, ..., vn]}\<close> otherwise, the values in stored order; on
  \<open>[(0, 1.0), (1, 2.0), (2, 3.0)]\<close> that is \<open>{"start": 1.0, "rounds": [2.0, 3.0]}\<close> and on
  \<open>[(1, 5.0), (2, 6.0)]\<close> it is \<open>{"rounds": [5.0, 6.0]}\<close>. The claim as written is about
  every series: the theorem after the next shows that a series of text whose first
  round index is 0 gets no \<open>start\<close>, and that a first value too large for 64 bits
  at round 0 gets \<open>AttributeError\<close>.
\<close>

theorem reformat_json_collapses_rounds:
  "(bad_array \<noteq> [] \<and> plain_series bad_array \<longrightarrow>
      reformat_json np bad_array =
        Inr (if fst (hd bad_array) = 0
             then [''start'' \<mapsto> Num (snd (hd bad_array)),
                   ''rounds'' \<mapsto> Arr (map snd (tl bad_array))]
             else [''rounds'' \<mapsto> Arr (map snd bad_array)]))
   \<and> reformat_json np' [(0, PyFloat (1.0 :: real)), (1, PyFloat 2.0), (2, PyFloat 3.0)] =
       Inr [''start'' \<mapsto> Num (PyFloat 1.0), ''rounds'' \<mapsto> Arr [PyFloat 2.0, PyFloat 3.0]]
   \<and> reformat_json np' [(1, PyFloat (5.0 :: real)), (2, PyFloat 6.0)] =
       Inr [''rounds'' \<mapsto> Arr [PyFloat 5.0, PyFloat 6.0]]"
proof (intro conjI impI)
  assume "bad_array \<noteq> [] \<and> plain_series bad_array"
  then show "reformat_json np bad_array =
        Inr (if fst (hd bad_array) = 0
             then [''start'' \<mapsto> Num (snd (hd bad_array)),
                   ''rounds'' \<mapsto> Arr (map snd (tl bad_array))]
             else [''rounds'' \<mapsto> Arr (map snd bad_array)])"
    by (simp add: reformat_json_plain_series)
next
  have "plain_series [(0, PyFloat (1.0 :: real)), (1, PyFloat 2.0), (2, PyFloat 3.0)]"
    by (simp add: plain_series_def float_series_def)
  then show "reformat_json np' [(0, PyFloat (1.0 :: real)), (1, PyFloat 2.0), (2, PyFloat 3.0)] =
       Inr [''start'' \<mapsto> Num (PyFloat 1.0), ''rounds'' \<mapsto> Arr [PyFloat 2.0, PyFloat 3.0]]"
    by (simp add: reformat_json_plain_series)
next
  have "plain_series [(1, PyFloat (5.0 :: real)), (2, PyFloat 6.0)]"
    by (simp add: plain_series_def float_series_def)
  then show "reformat_json np' [(1, PyFloat (5.0 :: real)), (2, PyFloat 6.0)] =
       Inr [''rounds'' \<mapsto> Arr [PyFloat 5.0, PyFloat 6.0]]"
    by (simp add: reformat_json_plain_series)
qed

theorem reformat_json_collapses_rounds_witness:
  "[(0, PyInt 7), (3, PyInt 8)] \<noteq> []
   \<and> plain_series [(0, PyInt 7 :: real scalar), (3, PyInt 8)]
   \<and> reformat_json np_example [(0, PyInt 7), (3, PyInt 8)] =
       Inr [''start'' \<mapsto> Num (PyInt 7), ''rounds'' \<mapsto> Arr [PyInt 8]]"
proof -
  have plain: "plain_series [(0, PyInt 7 :: real scalar), (3, PyInt 8)]"
    by (simp add: plain_series_def int_series_def)
  with reformat_json_collapses_rounds [of "[(0, PyInt 7), (3, PyInt 8)]" np_example]
  show ?thesis
    by simp
qed

theorem reformat_json_text_counterexample:
  "reformat_json np_example [(0, PyStr ''a''), (1, PyStr ''b'')] =
     Inr [''rounds'' \<mapsto> Arr [PyStr ''a'', PyStr ''b'']]
   \<and> reformat_json np_example [(0, PyStr ''a''), (1, PyStr ''b'')] \<noteq>
     Inr [''start'' \<mapsto> Num (PyStr ''a''), ''rounds'' \<mapsto> Arr [PyStr ''b'']]
   \<and> reformat_json np_example [(0, PyInt (2 ^ 64 + 1))] = Inl AttributeError"
proof (intro conjI)
  show rounds: "reformat_json np_example [(0, PyStr ''a''), (1, PyStr ''b'')] =
     Inr [''rounds'' \<mapsto> Arr [PyStr ''a'', PyStr ''b'']]"
    by (simp add: reformat_json_def np_array_def np_example_def)
  have "[''rounds'' \<mapsto> Arr [PyStr ''a'', PyStr ''b'' :: real scalar]] ''start'' = None"
    by simp
  moreover have "[''start'' \<mapsto> Num (PyStr ''a''), ''rounds'' \<mapsto> Arr [PyStr ''b'' :: real scalar]]
      ''start'' \<noteq> None"
    by simp
  ultimately have "[''rounds'' \<mapsto> Arr [PyStr ''a'', PyStr ''b'' :: real scalar]] \<noteq>
      [''start'' \<mapsto> Num (PyStr ''a''), ''rounds'' \<mapsto> Arr [PyStr ''b'']]"
    by metis
  then show "reformat_json np_example [(0, PyStr ''a''), (1, PyStr ''b'')] \<noteq>
     Inr [''start'' \<mapsto> Num (PyStr ''a''), ''rounds'' \<mapsto> Arr [PyStr ''b'']]"
    unfolding rounds by simp
  show "reformat_json np_example [(0, PyInt (2 ^ 64 + 1))] = Inl AttributeError"
    by (simp add: reformat_json_def np_array_def np_example_def)
qed

section \<open>The structured report\<close>

lemma accepts_Inr: "accepts np stored \<Longrightarrow> reformat_json np stored = Inr (collapsed np stored)"
  by (cases "reformat_json np stored") (simp_all add: accepts_def collapsed_def)

lemma accepts_nonempty: "accepts np stored \<Longrightarrow> stored \<noteq> []"
  by (auto simp: accepts_def reformat_json_empty)

lemma plain_series_accepted: "plain_series stored \<Longrightarrow> stored \<noteq> [] \<Longrightarrow> accepts np stored"
  by (simp add: accepts_def reformat_json_plain_series)

lemma accepted_map_of:
  "list_all (\<lambda>(key, stored). accepts np stored) tbl \<Longrightarrow> map_of tbl key = Some stored
   \<Longrightarrow> accepts np stored"
  by (auto simp: list_all_iff dest!: map_of_SomeD)

lemma nonempty_series_map_of:
  "nonempty_series tbl \<Longrightarrow> map_of tbl key = Some stored \<Longrightarrow> stored \<noteq> []"
  by (auto simp: nonempty_series_def list_all_iff dest!: map_of_SomeD)

lemma reformat_table_loop_Inr:
  "list_all (\<lambda>(key, stored). accepts np stored) tbl \<Longrightarrow> set keys \<subseteq> fst ` set tbl \<Longrightarrow>
   reformat_table_loop np tbl keys temp =
     Inr (\<lambda>key. if key \<in> set keys then collapsed_table np tbl key else temp key)"
proof (induction keys arbitrary: temp)
  case Nil
  show ?case by simp
next
  case (Cons x xs)
  from Cons.prems obtain stored where s: "map_of tbl x = Some stored"
    by (cases "map_of tbl x") (auto simp: map_of_eq_None_iff)
  with Cons.prems have "accepts np stored"
    by (auto dest: accepted_map_of)
  with Cons s show ?case
    by (auto simp: dict_getitem_map_of accepts_Inr collapsed_table_def fun_eq_iff)
qed

lemma reformat_table_Inr:
  assumes "list_all (\<lambda>(key, stored). accepts np stored) tbl"
  shows "reformat_table_loop np tbl (map fst tbl) Map.empty = Inr (collapsed_table np tbl)"
proof -
  have "collapsed_table np tbl key = None" if "key \<notin> fst ` set tbl" for key
    using that by (simp add: collapsed_table_def map_of_eq_None_iff [THEN iffD2])
  with assms show ?thesis
    by (auto simp: reformat_table_loop_Inr fun_eq_iff)
qed

lemma repr_json_Inr:
  assumes "accepts_all np h"
  shows "repr_json np h = Inr (structured np h)"
proof -
  from assms have losses:
    "losses_distributed h \<noteq> [] \<Longrightarrow>
       reformat_json np (losses_distributed h) = Inr (collapsed np (losses_distributed h))"
    "losses_centralized h \<noteq> [] \<Longrightarrow>
       reformat_json np (losses_centralized h) = Inr (collapsed np (losses_centralized h))"
    by (auto simp: accepts_all_def accepts_Inr)
  from assms have tables:
    "list_all (\<lambda>(key, stored). accepts np stored) (metrics_distributed_fit h)"
    "list_all (\<lambda>(key, stored). accepts np stored) (metrics_distributed h)"
    "list_all (\<lambda>(key, stored). accepts np stored) (metrics_centralized h)"
    by (simp_all add: accepts_all_def)
  show ?thesis
    by (simp add: repr_json_def structured_def losses tables [THEN reformat_table_Inr]
          with_entry_def loss_entry_def metrics_entry_def)
qed

lemma series_nonempty_init: "series_nonempty History_init"
  by (simp add: series_nonempty_def History_init_def nonempty_series_def)

lemma series_nonempty_after_call: "series_nonempty h \<Longrightarrow> series_nonempty (after_call h c)"
  by (cases c)
     (simp_all add: series_nonempty_def nonempty_series_appended add_loss_distributed_def
        add_loss_centralized_def)

lemma series_nonempty_after_calls:
  "series_nonempty h \<Longrightarrow> series_nonempty (foldl after_call h cs)"
  by (induction cs arbitrary: h) (simp_all add: series_nonempty_after_call)

lemma series_nonempty_do_calls:
  "do_calls History_init cs = Inr h \<Longrightarrow> series_nonempty h"
  using series_nonempty_after_calls [OF series_nonempty_init, of cs]
  by (simp add: do_calls_Inr)

lemma plain_table_accepted:
  "nonempty_series tbl \<Longrightarrow> list_all (\<lambda>(key, stored). plain_series stored) tbl
   \<Longrightarrow> list_all (\<lambda>(key, stored). accepts np stored) tbl"
  by (auto simp: nonempty_series_def list_all_iff intro: plain_series_accepted)

lemma plain_ledger_accepted:
  "series_nonempty h \<Longrightarrow> plain_ledger h \<Longrightarrow> accepts_all np h"
  by (auto simp: series_nonempty_def plain_ledger_def accepts_all_def
        intro: plain_series_accepted plain_table_accepted)

lemma structured_dom:
  "name \<notin> {''History (loss, distributed)'', ''History (loss, centralized)'',
             ''History (metrics, distributed, fit)'', ''History (metrics, distributed, evaluate)'',
             ''History (metrics, centralized)''} \<Longrightarrow> structured np h name = None"
  by (simp add: structured_def with_entry_def split: option.splits)

lemma structured_loss_distributed:
  "structured np h ''History (loss, distributed)'' = loss_entry np (losses_distributed h)"
  by (simp add: structured_def with_entry_def split: option.splits)

lemma structured_loss_centralized:
  "structured np h ''History (loss, centralized)'' = loss_entry np (losses_centralized h)"
  by (simp add: structured_def with_entry_def split: option.splits)

lemma structured_metrics_distributed_fit:
  "structured np h ''History (metrics, distributed, fit)'' =
     metrics_entry np (metrics_distributed_fit h)"
  by (simp add: structured_def with_entry_def split: option.splits)

lemma structured_metrics_distributed:
  "structured np h ''History (metrics, distributed, evaluate)'' =
     metrics_entry np (metrics_distributed h)"
  by (simp add: structured_def with_entry_def split: option.splits)

lemma structured_metrics_centralized:
  "structured np h ''History (metrics, centralized)'' = metrics_entry np (metrics_centralized h)"
  by (simp add: structured_def with_entry_def split: option.splits)

lemma loss_entry_cases:
  "stored = [] \<or> accepts np stored \<Longrightarrow>
   stored = [] \<and> loss_entry np stored = None
   \<or> (\<exists>c. reformat_json np stored = Inr c \<and> loss_entry np stored = Some (Obj c))"
  by (auto simp: loss_entry_def accepts_Inr)

lemma metrics_entry_cases:
  assumes "list_all (\<lambda>(key, stored). accepts np stored) tbl"
  shows "tbl = [] \<and> metrics_entry np tbl = None
   \<or> (\<exists>temp. tbl \<noteq> [] \<and> metrics_entry np tbl = Some (Obj temp)
        \<and> (\<forall>key. case map_of tbl key of
               None \<Rightarrow> temp key = None
             | Some stored \<Rightarrow> \<exists>c. reformat_json np stored = Inr c \<and> temp key = Some (Obj c)))"
proof (cases "tbl = []")
  case True
  then show ?thesis by (simp add: metrics_entry_def)
next
  case False
  have "case map_of tbl key of
               None \<Rightarrow> collapsed_table np tbl key = None
             | Some stored \<Rightarrow>
                 \<exists>c. reformat_json np stored = Inr c
                   \<and> collapsed_table np tbl key = Some (Obj c)" for key
    using accepted_map_of [OF assms, of key]
    by (simp add: collapsed_table_def accepts_Inr split: option.splits)
  with False show ?thesis
    by (auto simp: metrics_entry_def)
qed

lemma collapsed_start:
  "plain_series ((0, v0) # rest) \<Longrightarrow>
   collapsed np ((0, v0) # rest) = [''start'' \<mapsto> Num v0, ''rounds'' \<mapsto> Arr (map snd rest)]"
  by (simp add: collapsed_def reformat_json_plain_series)

text \<open>
  Claim C2, as the code has it. On every object all of whose series \<open>reformat_json\<close>
  accepts, \<open>repr_json\<close> returns a dictionary whose keys are among the five section
  names, with an entry for a section exactly when the section is not empty. The
  entry of a loss section is \<open>reformat_json\<close> of the loss series; the entry of a
  metrics section is a dictionary that maps each metric name of the table, and
  nothing else, to \<open>reformat_json\<close> of the series of that name. \<open>reformat_json\<close> accepts
  all series of an object that append calls produce from values which numpy stores
  as they are. After centralized losses \<open>(0, 0.9)\<close>, \<open>(1, 0.5)\<close>, \<open>(2, 0.3)\<close> the entry
  \<open>History (loss, centralized)\<close> is \<open>{"start": 0.9, "rounds": [0.5, 0.3]}\<close>, and on a new
  object the report is the empty dictionary. The claim as written is about every
  object: the theorem after the next shows two objects, each the result of one
  append call, on which \<open>repr_json\<close> raises instead.
\<close>

theorem repr_json_sections:
  "(accepts_all np h \<longrightarrow>
     (\<exists>rep. repr_json np h = Inr rep
        \<and> dom rep \<subseteq> {''History (loss, distributed)'', ''History (loss, centralized)'',
             ''History (metrics, distributed, fit)'', ''History (metrics, distributed, evaluate)'',
             ''History (metrics, centralized)''}
        \<and> (losses_distributed h = [] \<and> rep ''History (loss, distributed)'' = None
             \<or> (\<exists>c. reformat_json np (losses_distributed h) = Inr c
                   \<and> rep ''History (loss, distributed)'' = Some (Obj c)))
        \<and> (losses_centralized h = [] \<and> rep ''History (loss, centralized)'' = None
             \<or> (\<exists>c. reformat_json np (losses_centralized h) = Inr c
                   \<and> rep ''History (loss, centralized)'' = Some (Obj c)))
        \<and> (metrics_distributed_fit h = [] \<and> rep ''History (metrics, distributed, fit)'' = None
             \<or> (\<exists>temp. metrics_distributed_fit h \<noteq> []
                   \<and> rep ''History (metrics, distributed, fit)'' = Some (Obj temp)
                   \<and> (\<forall>key. case map_of (metrics_distributed_fit h) key of
                          None \<Rightarrow> temp key = None
                        | Some stored \<Rightarrow>
                            \<exists>c. reformat_json np stored = Inr c \<and> temp key = Some (Obj c))))
        \<and> (metrics_distributed h = [] \<and> rep ''History (metrics, distributed, evaluate)'' = None
             \<or> (\<exists>temp. metrics_distributed h \<noteq> []
                   \<and> rep ''History (metrics, distributed, evaluate)'' = Some (Obj temp)
                   \<and> (\<forall>key. case map_of (metrics_distributed h) key of
                          None \<Rightarrow> temp key = None
                        | Some stored \<Rightarrow>
                            \<exists>c. reformat_json np stored = Inr c \<and> temp key = Some (Obj c))))
        \<and> (metrics_centralized h = [] \<and> rep ''History (metrics, centralized)'' = None
             \<or> (\<exists>temp. metrics_centralized h \<noteq> []
                   \<and> rep ''History (metrics, centralized)'' = Some (Obj temp)
                   \<and> (\<forall>key. case map_of (metrics_centralized h) key of
                          None \<Rightarrow> temp key = None
                        | Some stored \<Rightarrow>
                            \<exists>c. reformat_json np stored = Inr c \<and> temp key = Some (Obj c))))))
   \<and> (do_calls History_init cs = Inr h \<and> plain_ledger h \<longrightarrow> accepts_all np h)
   \<and> (\<exists>rep. repr_json np'
          (add_loss_centralized
             (add_loss_centralized
                (add_loss_centralized History_init 0 (PyFloat (0.9 :: real))) 1 (PyFloat 0.5))
             2 (PyFloat 0.3)) = Inr rep
        \<and> rep ''History (loss, centralized)'' =
            Some (Obj [''start'' \<mapsto> Num (PyFloat 0.9),
                       ''rounds'' \<mapsto> Arr [PyFloat 0.5, PyFloat 0.3]]))
   \<and> repr_json np History_init = Inr Map.empty"
  (is "(?accepted \<longrightarrow> ?sections) \<and> (?plain \<longrightarrow> _) \<and> ?example \<and> ?fresh")
proof (intro conjI impI)
  assume ok: ?accepted
  then have tables: "list_all (\<lambda>(key, stored). accepts np stored) (metrics_distributed_fit h)"
    "list_all (\<lambda>(key, stored). accepts np stored) (metrics_distributed h)"
    "list_all (\<lambda>(key, stored). accepts np stored) (metrics_centralized h)"
    and losses: "losses_distributed h = [] \<or> accepts np (losses_distributed h)"
    "losses_centralized h = [] \<or> accepts np (losses_centralized h)"
    by (simp_all add: accepts_all_def)
  let ?rep = "structured np h"
  have r: "repr_json np h = Inr ?rep"
    using ok by (rule repr_json_Inr)
  have d: "dom ?rep \<subseteq> {''History (loss, distributed)'', ''History (loss, centralized)'',
             ''History (metrics, distributed, fit)'', ''History (metrics, distributed, evaluate)'',
             ''History (metrics, centralized)''}"
  proof
    fix name
    assume "name \<in> dom ?rep"
    then have "structured np h name \<noteq> None"
      by (simp add: dom_def)
    then show "name \<in> {''History (loss, distributed)'', ''History (loss, centralized)'',
             ''History (metrics, distributed, fit)'', ''History (metrics, distributed, evaluate)'',
             ''History (metrics, centralized)''}"
      by (rule contrapos_np) (rule structured_dom)
  qed
  note s = loss_entry_cases [OF losses(1), folded structured_loss_distributed [of np h]]
    loss_entry_cases [OF losses(2), folded structured_loss_centralized [of np h]]
    metrics_entry_cases [OF tables(1), folded structured_metrics_distributed_fit [of np h]]
    metrics_entry_cases [OF tables(2), folded structured_metrics_distributed [of np h]]
    metrics_entry_cases [OF tables(3), folded structured_metrics_centralized [of np h]]
  show ?sections
    apply (rule exI [of _ ?rep])
    apply (rule conjI, rule r)
    apply (rule conjI, rule d)
    apply (rule conjI, rule s(1))
    apply (rule conjI, rule s(2))
    apply (rule conjI, rule s(3))
    apply (rule conjI, rule s(4))
    apply (rule s(5))
    done
next
  assume ?plain
  then show "accepts_all np h"
    by (auto intro: plain_ledger_accepted series_nonempty_do_calls)
next
  let ?h = "(add_loss_centralized
             (add_loss_centralized
                (add_loss_centralized History_init 0 (PyFloat (0.9 :: real))) 1 (PyFloat 0.5))
             2 (PyFloat 0.3))"
  have stored: "losses_centralized ?h = [(0, PyFloat 0.9), (1, PyFloat 0.5), (2, PyFloat 0.3)]"
    by (simp add: add_loss_centralized_def History_init_def)
  have plain: "plain_series [(0, PyFloat (0.9 :: real)), (1, PyFloat 0.5), (2, PyFloat 0.3)]"
    by (simp add: plain_series_def float_series_def)
  from plain have "accepts np' [(0, PyFloat 0.9), (1, PyFloat 0.5), (2, PyFloat 0.3)]"
    by (rule plain_series_accepted) simp
  then have "accepts_all np' ?h"
    unfolding accepts_all_def stored
    by (simp add: add_loss_centralized_def History_init_def)
  then have "repr_json np' ?h = Inr (structured np' ?h)"
    by (rule repr_json_Inr)
  moreover have "structured np' ?h ''History (loss, centralized)'' =
      Some (Obj [''start'' \<mapsto> Num (PyFloat 0.9),
                 ''rounds'' \<mapsto> Arr [PyFloat 0.5, PyFloat 0.3]])"
    unfolding structured_loss_centralized stored
    using collapsed_start [OF plain, of np']
    by (simp add: loss_entry_def)
  ultimately show ?example
    by (rule_tac x = "structured np' ?h" in exI) (rule conjI)
next
  show ?fresh
    by (simp add: repr_json_def History_init_def)
qed

theorem repr_json_sections_witness:
  "do_calls History_init
     [Add_metrics_distributed_fit 1 [(''accuracy'', PyInt 1)],
      Add_metrics_distributed_fit 2 [(''accuracy'', PyInt 4)]] =
     Inr (History_init\<lparr>metrics_distributed_fit :=
        [(''accuracy'', [(1, PyInt 1 :: real scalar), (2, PyInt 4)])]\<rparr>)
   \<and> plain_ledger (History_init\<lparr>metrics_distributed_fit :=
        [(''accuracy'', [(1, PyInt 1 :: real scalar), (2, PyInt 4)])]\<rparr>)
   \<and> accepts_all np_example (History_init\<lparr>metrics_distributed_fit :=
        [(''accuracy'', [(1, PyInt 1 :: real scalar), (2, PyInt 4)])]\<rparr>)
   \<and> (\<exists>rep temp.
         repr_json np_example (History_init\<lparr>metrics_distributed_fit :=
        [(''accuracy'', [(1, PyInt 1 :: real scalar), (2, PyInt 4)])]\<rparr>) = Inr rep
         \<and> rep ''History (metrics, distributed, fit)'' = Some (Obj temp)
         \<and> temp ''accuracy'' = Some (Obj [''rounds'' \<mapsto> Arr [PyInt 1, PyInt 4]])
         \<and> rep ''History (loss, distributed)'' = None)"
proof -
  let ?cs = "[Add_metrics_distributed_fit 1 [(''accuracy'', PyInt 1)],
      Add_metrics_distributed_fit 2 [(''accuracy'', PyInt 4)]]"
  let ?h = "(History_init\<lparr>metrics_distributed_fit :=
        [(''accuracy'', [(1, PyInt 1 :: real scalar), (2, PyInt 4)])]\<rparr>)"
  let ?np = np_example
  have reached: "do_calls History_init ?cs = Inr ?h"
    by (simp add: add_metrics_distributed_fit_def append_metric_def dict_contains_def
          History_init_def)
  have plain: "plain_ledger ?h"
    by (simp add: plain_ledger_def plain_series_def int_series_def float_series_def
          History_init_def)
  have accepted: "accepts_all ?np ?h"
    by (rule repr_json_sections [of ?np ?h ?cs, THEN conjunct2, THEN conjunct1, THEN mp])
       (rule conjI [OF reached plain])
  have tbl: "metrics_distributed_fit ?h \<noteq> []"
    "map_of (metrics_distributed_fit ?h) ''accuracy'' = Some [(1, PyInt 1), (2, PyInt 4)]"
    "losses_distributed ?h = []"
    by (simp_all add: History_init_def)
  have collapsed: "reformat_json ?np [(1, PyInt 1), (2, PyInt 4)] =
      Inr [''rounds'' \<mapsto> Arr [PyInt 1, PyInt 4]]"
    by (simp add: reformat_json_def np_array_def)
  note sections = repr_json_sections [of ?np ?h, THEN conjunct1, THEN mp, OF accepted]
  from sections obtain rep where rep: "repr_json ?np ?h = Inr rep"
    and loss: "losses_distributed ?h = [] \<and> rep ''History (loss, distributed)'' = None
             \<or> (\<exists>c. reformat_json ?np (losses_distributed ?h) = Inr c
                   \<and> rep ''History (loss, distributed)'' = Some (Obj c))"
    and fit: "metrics_distributed_fit ?h = [] \<and> rep ''History (metrics, distributed, fit)'' = None
             \<or> (\<exists>temp. metrics_distributed_fit ?h \<noteq> []
                   \<and> rep ''History (metrics, distributed, fit)'' = Some (Obj temp)
                   \<and> (\<forall>key. case map_of (metrics_distributed_fit ?h) key of
                          None \<Rightarrow> temp key = None
                        | Some stored \<Rightarrow>
                            \<exists>c. reformat_json ?np stored = Inr c \<and> temp key = Some (Obj c)))"
    by (elim exE conjE) (rule that, assumption+)
  from fit obtain temp where temp: "rep ''History (metrics, distributed, fit)'' = Some (Obj temp)"
    and keys: "\<forall>key. case map_of (metrics_distributed_fit ?h) key of
                          None \<Rightarrow> temp key = None
                        | Some stored \<Rightarrow>
                            \<exists>c. reformat_json ?np stored = Inr c \<and> temp key = Some (Obj c)"
  proof (elim disjE conjE exE)
    assume "metrics_distributed_fit ?h = []"
    with tbl(1) show ?thesis by (rule notE)
  next
    fix temp
    assume "rep ''History (metrics, distributed, fit)'' = Some (Obj temp)"
      and "\<forall>key. case map_of (metrics_distributed_fit ?h) key of
                          None \<Rightarrow> temp key = None
                        | Some stored \<Rightarrow>
                            \<exists>c. reformat_json ?np stored = Inr c \<and> temp key = Some (Obj c)"
    then show ?thesis by (rule that)
  qed
  from keys have "case map_of (metrics_distributed_fit ?h) ''accuracy'' of
                          None \<Rightarrow> temp ''accuracy'' = None
                        | Some stored \<Rightarrow>
                            \<exists>c. reformat_json ?np stored = Inr c
                              \<and> temp ''accuracy'' = Some (Obj c)"
    by (rule spec)
  then have entry: "temp ''accuracy'' = Some (Obj [''rounds'' \<mapsto> Arr [PyInt 1, PyInt 4]])"
    unfolding tbl(2) by (simp add: collapsed)
  from loss have none: "rep ''History (loss, distributed)'' = None"
    unfolding tbl(3) by (simp add: reformat_json_empty)
  show ?thesis
    by (intro conjI exI) (rule reached plain accepted rep temp entry none)+
qed

theorem repr_json_raises_counterexample:
  "do_calls History_init [Add_metrics_centralized 0 [(''n'', PyInt (2 ^ 64 + 1))]] =
     Inr (History_init\<lparr>metrics_centralized :=
        [(''n'', [(0, PyInt (2 ^ 64 + 1) :: real scalar)])]\<rparr>)
   \<and> repr_json np_example (History_init\<lparr>metrics_centralized :=
        [(''n'', [(0, PyInt (2 ^ 64 + 1) :: real scalar)])]\<rparr>) = Inl AttributeError
   \<and> do_calls History_init [Add_metrics_distributed_fit 1 [(''w'', PySeq [1, 2])]] =
     Inr (History_init\<lparr>metrics_distributed_fit :=
        [(''w'', [(1, PySeq [1, 2] :: real scalar)])]\<rparr>)
   \<and> repr_json np_example (History_init\<lparr>metrics_distributed_fit :=
        [(''w'', [(1, PySeq [1, 2] :: real scalar)])]\<rparr>) = Inl ValueError"
  by (simp add: add_metrics_centralized_def add_metrics_distributed_fit_def append_metric_def
        dict_contains_def History_init_def repr_json_def reformat_json_def np_array_def)

lemma and_then_not:
  "m \<noteq> Inl e \<Longrightarrow> (\<And>x. f x \<noteq> Inl e) \<Longrightarrow> and_then m f \<noteq> Inl e"
  by (cases m) simp_all

lemma reformat_table_loop_not_IndexError:
  "nonempty_series tbl \<Longrightarrow> set keys \<subseteq> fst ` set tbl \<Longrightarrow>
   reformat_table_loop np tbl keys temp \<noteq> Inl IndexError"
proof (induction keys arbitrary: temp)
  case Nil
  show ?case by simp
next
  case (Cons x xs)
  from Cons.prems obtain stored where s: "map_of tbl x = Some stored"
    by (cases "map_of tbl x") (auto simp: map_of_eq_None_iff)
  with Cons.prems have "stored \<noteq> []"
    by (auto dest: nonempty_series_map_of)
  then have "reformat_json np stored \<noteq> Inl IndexError"
    by (rule reformat_json_not_IndexError)
  moreover from Cons have "reformat_table_loop np tbl xs temp' \<noteq> Inl IndexError" for temp'
    by simp
  ultimately show ?case
    using s by (simp add: dict_getitem_map_of and_then_not)
qed

lemma guarded_loss_not_IndexError:
  "(if stored \<noteq> [] then and_then (reformat_json np stored) (\<lambda>c. Inr (F c)) else Inr y)
   \<noteq> Inl IndexError"
  by (simp add: and_then_not reformat_json_not_IndexError)

lemma guarded_table_not_IndexError:
  "nonempty_series tbl \<Longrightarrow>
   (if tbl \<noteq> [] then and_then (reformat_table_loop np tbl (map fst tbl) temp) (\<lambda>t. Inr (F t))
    else Inr y) \<noteq> Inl IndexError"
  by (simp add: and_then_not reformat_table_loop_not_IndexError)

lemma repr_json_not_IndexError:
  assumes "series_nonempty h"
  shows "repr_json np h \<noteq> Inl IndexError"
proof -
  from assms have tables: "nonempty_series (metrics_distributed_fit h)"
    "nonempty_series (metrics_distributed h)" "nonempty_series (metrics_centralized h)"
    by (simp_all add: series_nonempty_def)
  show ?thesis
    unfolding repr_json_def
    apply (rule and_then_not, rule guarded_loss_not_IndexError)
    apply (rule and_then_not, rule guarded_loss_not_IndexError)
    apply (rule and_then_not, rule guarded_table_not_IndexError, rule tables(1))
    apply (rule and_then_not, rule guarded_table_not_IndexError, rule tables(2))
    apply (rule and_then_not, rule guarded_table_not_IndexError, rule tables(3))
    apply simp
    done
qed

text \<open>
  Claim C7. In the object that any list of append calls leaves, no series stored in a
  table is empty, and \<open>repr_json\<close> does not raise \<open>IndexError\<close>, whatever the values are
  and whatever else it raises for them: \<open>reformat_json\<close> raises \<open>IndexError\<close> on the empty
  series and on no other, and \<open>repr_json\<close> hands it a loss series only when the series
  is not empty. \<open>IndexError\<close> would occur if a table held an empty series, as the last
  line shows on an object that no list of calls produces.
\<close>

theorem repr_json_guards_empty_series:
  "(\<exists>h. do_calls History_init cs = Inr h
       \<and> nonempty_series (metrics_distributed_fit h)
       \<and> nonempty_series (metrics_distributed h)
       \<and> nonempty_series (metrics_centralized h)
       \<and> repr_json np h \<noteq> Inl IndexError)
   \<and> reformat_json np [] = Inl IndexError
   \<and> (stored \<noteq> [] \<longrightarrow> reformat_json np stored \<noteq> Inl IndexError)
   \<and> repr_json np (History_init\<lparr>metrics_centralized := [(''accuracy'', [])]\<rparr>)
       = Inl IndexError"
proof (intro conjI impI)
  let ?h = "foldl after_call History_init cs"
  have "series_nonempty ?h"
    by (rule series_nonempty_after_calls) (rule series_nonempty_init)
  then show "\<exists>h. do_calls History_init cs = Inr h
       \<and> nonempty_series (metrics_distributed_fit h)
       \<and> nonempty_series (metrics_distributed h)
       \<and> nonempty_series (metrics_centralized h)
       \<and> repr_json np h \<noteq> Inl IndexError"
    by (simp add: do_calls_Inr repr_json_not_IndexError series_nonempty_def)
next
  show "reformat_json np [] = Inl IndexError"
    by (rule reformat_json_empty)
next
  assume "stored \<noteq> []"
  then show "reformat_json np stored \<noteq> Inl IndexError"
    by (rule reformat_json_not_IndexError)
next
  show "repr_json np (History_init\<lparr>metrics_centralized := [(''accuracy'', [])]\<rparr>)
       = Inl IndexError"
    by (simp add: repr_json_def History_init_def reformat_json_empty)
qed

theorem repr_json_guards_empty_series_witness:
  "\<exists>h. do_calls History_init
       [Add_loss_centralized 0 (PyFloat (3 :: real)),
        Add_metrics_centralized 0 [(''acc'', PyStr ''high''), (''n'', PyInt (2 ^ 64 + 1))],
        Add_metrics_distributed 1 [(''w'', PySeq [1, 2])]] = Inr h
     \<and> nonempty_series (metrics_distributed_fit h)
     \<and> nonempty_series (metrics_distributed h)
     \<and> nonempty_series (metrics_centralized h)
     \<and> repr_json np_example h \<noteq> Inl IndexError"
  using repr_json_guards_empty_series
    [of "[Add_loss_centralized 0 (PyFloat (3 :: real)),
        Add_metrics_centralized 0 [(''acc'', PyStr ''high''), (''n'', PyInt (2 ^ 64 + 1))],
        Add_metrics_distributed 1 [(''w'', PySeq [1, 2])]]" np_example]
  by (rule conjunct1)

section \<open>The text report\<close>

lemma foldl_append_concat: "foldl (\<lambda>a b. a @ b) x xs = x @ concat xs"
  by (induction xs arbitrary: x) simp_all

lemma reduce_append: "xs \<noteq> [] \<Longrightarrow> reduce (\<lambda>a b. a @ b) xs = Inr (concat xs)"
  by (cases xs) (simp_all add: foldl_append_concat)

lemma History_repr_Inr:
  "History_repr fmt pformat h =
     Inr ((if losses_distributed h = [] then []
           else ''History (loss, distributed):'' @ [CHR 0x0A]
                @ concat (map (loss_line fmt) (losses_distributed h)))
        @ (if losses_centralized h = [] then []
           else ''History (loss, centralized):'' @ [CHR 0x0A]
                @ concat (map (loss_line fmt) (losses_centralized h)))
        @ (if metrics_distributed_fit h = [] then []
           else ''History (metrics, distributed, fit):'' @ [CHR 0x0A]
                @ pformat (metrics_distributed_fit h) @ [CHR 0x0A])
        @ (if metrics_distributed h = [] then []
           else ''History (metrics, distributed, evaluate):'' @ [CHR 0x0A]
                @ pformat (metrics_distributed h) @ [CHR 0x0A])
        @ (if metrics_centralized h = [] then []
           else ''History (metrics, centralized):'' @ [CHR 0x0A]
                @ pformat (metrics_centralized h)))"
  by (simp add: History_repr_def reduce_append Let_def)

text \<open>
  Claim C4. \<open>__repr__\<close> raises nothing and returns the sections in the order
  distributed loss, centralized loss, distributed-fit metrics, distributed-evaluate
  metrics, centralized metrics; a section that is not empty is its header line, which
  names it, followed by its entries, and an empty section is absent altogether. On
  a new object the report is the empty string.
\<close>

theorem History_repr_sections:
  "History_repr fmt pformat h =
     Inr (concat (map emitted
       [(''History (loss, distributed)'', losses_distributed h = [],
           concat (map (loss_line fmt) (losses_distributed h))),
        (''History (loss, centralized)'', losses_centralized h = [],
           concat (map (loss_line fmt) (losses_centralized h))),
        (''History (metrics, distributed, fit)'', metrics_distributed_fit h = [],
           pformat (metrics_distributed_fit h) @ [CHR 0x0A]),
        (''History (metrics, distributed, evaluate)'', metrics_distributed h = [],
           pformat (metrics_distributed h) @ [CHR 0x0A]),
        (''History (metrics, centralized)'', metrics_centralized h = [],
           pformat (metrics_centralized h))]))
   \<and> History_repr fmt pformat History_init = Inr []"
  by (simp add: History_repr_Inr emitted_def History_init_def)

theorem History_repr_sections_witness:
  "History_repr str_int names_only
     (History_init\<lparr>losses_centralized := [(1, 4 :: int)],
        metrics_distributed := [(''acc'', [(1, 9)])]\<rparr>) =
   Inr (''History (loss, centralized):'' @ [CHR 0x0A] @ [CHR 0x09] @ ''round 1: 4'' @ [CHR 0x0A]
        @ ''History (metrics, distributed, evaluate):'' @ [CHR 0x0A] @ ''acc'' @ [CHR 0x0A])"
  using History_repr_sections [of str_int names_only
    "History_init\<lparr>losses_centralized := [(1, 4 :: int)],
        metrics_distributed := [(''acc'', [(1, 9)])]\<rparr>"]
  by (simp add: emitted_def History_init_def loss_line_def str_int_def str_nat.simps
        names_only_def)

text \<open>
  Claim C5, as the code has it. A loss section that is not empty is its header line
  followed by one line for each stored entry, in stored order and with nothing in
  between: a tab, \<open>round\<close>, the round index, a colon and a space, the loss, and a
  newline. The rest of the report is the report of the object without its losses.
  The claim as written leaves out the tab that starts every line; the theorem after
  this one shows, on a single entry, that the report is not the one without the tab.
\<close>

theorem loss_sections_lines:
  "(\<exists>rest.
      History_repr fmt pformat (h\<lparr>losses_distributed := [], losses_centralized := []\<rparr>) = Inr rest
      \<and> History_repr fmt pformat h =
          Inr ((if losses_distributed h = [] then []
                else ''History (loss, distributed):'' @ [CHR 0x0A]
                     @ concat (map (\<lambda>(server_round, loss).
                          [CHR 0x09] @ ''round '' @ str_int server_round @ '': '' @ fmt loss
                          @ [CHR 0x0A]) (losses_distributed h)))
             @ (if losses_centralized h = [] then []
                else ''History (loss, centralized):'' @ [CHR 0x0A]
                     @ concat (map (\<lambda>(server_round, loss).
                          [CHR 0x09] @ ''round '' @ str_int server_round @ '': '' @ fmt loss
                          @ [CHR 0x0A]) (losses_centralized h)))
             @ rest))
   \<and> History_repr str_int pformat
        (add_loss_centralized (add_loss_centralized History_init 10 (7 :: int)) 0 (- 3)) =
       Inr (''History (loss, centralized):'' @ [CHR 0x0A]
            @ [CHR 0x09] @ ''round 10: 7'' @ [CHR 0x0A]
            @ [CHR 0x09] @ ''round 0: -3'' @ [CHR 0x0A])"
proof -
  have line: "loss_line fmt = (\<lambda>(server_round, loss).
      [CHR 0x09] @ ''round '' @ str_int server_round @ '': '' @ fmt loss @ [CHR 0x0A])"
    by (simp add: loss_line_def fun_eq_iff)
  have "History_repr str_int pformat
        (add_loss_centralized (add_loss_centralized History_init 10 (7 :: int)) 0 (- 3)) =
       Inr (''History (loss, centralized):'' @ [CHR 0x0A]
            @ [CHR 0x09] @ ''round 10: 7'' @ [CHR 0x0A]
            @ [CHR 0x09] @ ''round 0: -3'' @ [CHR 0x0A])"
    by (simp add: History_repr_Inr add_loss_centralized_def History_init_def loss_line_def
          str_int_def str_nat.simps)
  then show ?thesis
    by (simp add: History_repr_Inr line)
qed

theorem loss_sections_lines_witness:
  "History_repr str_int names_only
     (History_init\<lparr>losses_distributed := [(2, 5 :: int)],
        metrics_centralized := [(''acc'', [(2, 1)])]\<rparr>) =
   Inr (''History (loss, distributed):'' @ [CHR 0x0A] @ [CHR 0x09] @ ''round 2: 5'' @ [CHR 0x0A]
        @ ''History (metrics, centralized):'' @ [CHR 0x0A] @ ''acc'')"
proof -
  let ?h = "History_init\<lparr>losses_distributed := [(2, 5 :: int)],
        metrics_centralized := [(''acc'', [(2, 1)])]\<rparr>"
  have rest: "History_repr str_int names_only
      (?h\<lparr>losses_distributed := [], losses_centralized := []\<rparr>) =
    Inr (''History (metrics, centralized):'' @ [CHR 0x0A] @ ''acc'')"
    by (simp add: History_repr_Inr History_init_def names_only_def)
  from loss_sections_lines [of str_int names_only ?h] show ?thesis
    unfolding rest
    by (simp add: History_init_def str_int_def str_nat.simps)
qed

theorem loss_lines_without_tab_counterexample:
  "History_repr str_int names_only (add_loss_distributed History_init 1 (2 :: int)) =
     Inr (''History (loss, distributed):'' @ [CHR 0x0A] @ [CHR 0x09] @ ''round 1: 2'' @ [CHR 0x0A])
   \<and> History_repr str_int names_only (add_loss_distributed History_init 1 (2 :: int)) \<noteq>
     Inr (''History (loss, distributed):'' @ [CHR 0x0A] @ ''round 1: 2'' @ [CHR 0x0A])"
  by (simp add: History_repr_Inr add_loss_distributed_def History_init_def loss_line_def
        str_int_def str_nat.simps)

section \<open>The reports as methods on the object\<close>

lemma next_do_attribute [simp]: "next_do (attribute field) f self = f (field self) self"
  by (simp add: next_do_def attribute_def)

lemma next_do_returns [simp]: "next_do (returns a) f self = f a self"
  by (simp add: next_do_def returns_def)

lemma next_do_attempt [simp]:
  "next_do (attempt r) f self = (case r of Inl e \<Rightarrow> (Inl e, self) | Inr a \<Rightarrow> f a self)"
  by (simp add: next_do_def attempt_def split: sum.splits)

lemma next_do_and_then:
  assumes "m self = (r, self)" and "\<And>a. r = Inr a \<Longrightarrow> f a self = (g a, self)"
  shows "next_do m f self = (and_then r g, self)"
  using assms by (cases r) (simp_all add: next_do_def)

lemma reformat_table_method_unchanged:
  "reformat_table_method np table xs temp self =
     (reformat_table_loop np (table self) xs temp, self)"
proof (induction xs arbitrary: temp)
  case Nil
  show ?case by (simp add: returns_def)
next
  case (Cons x xs)
  show ?case
    by (simp add: reformat_json_method_def Cons.IH and_then_def fun_upd_def split: sum.splits)
qed

lemma guarded_reformat_json:
  "(if c then next_do (attribute field)
             (\<lambda>stored. next_do (reformat_json_method np stored) (\<lambda>d. returns (F d)))
    else returns y) self =
   (if c then and_then (reformat_json np (field self)) (\<lambda>d. Inr (F d)) else Inr y, self)"
  by (simp add: reformat_json_method_def returns_def and_then_def split: sum.splits)

lemma guarded_reformat_table:
  "(if c then next_do (attribute field)
             (\<lambda>tbl. next_do (reformat_table_method np table (keys tbl) temp)
                      (\<lambda>d. returns (F d)))
    else returns y) self =
   (if c then and_then (reformat_table_loop np (table self) (keys (field self)) temp)
                (\<lambda>d. Inr (F d))
    else Inr y, self)"
  by (cases c)
     (simp_all add: next_do_def [of "reformat_table_method np table xs temp" for xs]
        reformat_table_method_unchanged returns_def and_then_def split: sum.splits)

lemma guarded_reduce:
  "(if c then next_do (attribute field)
             (\<lambda>stored. next_do (attempt (R stored)) (\<lambda>d. returns (F d)))
    else returns y) self =
   (if c then and_then (R (field self)) (\<lambda>d. Inr (F d)) else Inr y, self)"
  by (simp add: returns_def and_then_def split: sum.splits)

lemma guarded_pformat:
  "next_do (if c then next_do (attribute field) (\<lambda>tbl. returns (G tbl)) else returns y) k self =
   k (if c then G (field self) else y) self"
  by (simp add: next_do_def attribute_def returns_def)

lemma repr_json_method_unchanged: "repr_json_method np self = (repr_json np self, self)"
  unfolding repr_json_method_def repr_json_def
  apply (simp only: next_do_attribute)
  apply (rule next_do_and_then, rule guarded_reformat_json)
  apply (simp only: next_do_attribute)
  apply (rule next_do_and_then, rule guarded_reformat_json)
  apply (simp only: next_do_attribute)
  apply (rule next_do_and_then, rule guarded_reformat_table)
  apply (simp only: next_do_attribute)
  apply (rule next_do_and_then, rule guarded_reformat_table)
  apply (simp only: next_do_attribute)
  apply (rule next_do_and_then, rule guarded_reformat_table)
  apply (simp only: returns_def)
  done

lemma History_repr_method_unchanged:
  "History_repr_method fmt pformat self = (History_repr fmt pformat self, self)"
  unfolding History_repr_method_def History_repr_def
  apply (simp only: next_do_attribute)
  apply (rule next_do_and_then, rule guarded_reduce)
  apply (simp only: next_do_attribute)
  apply (rule next_do_and_then, rule guarded_reduce)
  apply (simp only: next_do_attribute guarded_pformat Let_def)
  apply (simp only: returns_def)
  done

text \<open>
  Claim C8. Run on any object, \<open>repr_json\<close> and \<open>__repr__\<close> return what the functions
  \<open>repr_json\<close> and \<open>History_repr\<close> of the object's five attributes give, exception
  included, and leave the object as it was. So a second call right after the first
  returns the same result, and the object is still the same after both.
\<close>

theorem reports_leave_object_unchanged:
  "repr_json_method np h = (repr_json np h, h)
   \<and> History_repr_method fmt pformat h' = (History_repr fmt pformat h', h')
   \<and> (case repr_json_method np h of (first, h1) \<Rightarrow>
        case repr_json_method np h1 of (second, h2) \<Rightarrow> first = second \<and> h1 = h \<and> h2 = h)
   \<and> (case History_repr_method fmt pformat h' of (first, h1) \<Rightarrow>
        case History_repr_method fmt pformat h1 of (second, h2) \<Rightarrow>
          first = second \<and> h1 = h' \<and> h2 = h')"
  by (simp add: repr_json_method_unchanged History_repr_method_unchanged)

theorem reports_leave_object_unchanged_witness:
  "repr_json_method np_example
     (History_init\<lparr>losses_distributed := [(0, PyInt 3), (1, PyInt 2)]\<rparr>) =
     (Inr (Map.empty(''History (loss, distributed)'' \<mapsto>
             Obj (Map.empty(''rounds'' \<mapsto> Arr [PyInt 2], ''start'' \<mapsto> Num (PyInt 3))))),
      History_init\<lparr>losses_distributed := [(0, PyInt 3), (1, PyInt 2)]\<rparr>)"
  using reports_leave_object_unchanged
    [of np_example "History_init\<lparr>losses_distributed := [(0, PyInt 3), (1, PyInt 2)]\<rparr>",
      THEN conjunct1]
  by (simp add: repr_json_def reformat_json_def np_array_def History_init_def)

section \<open>The append methods\<close>

text \<open>
  Claim C3. Run any list of calls of the append methods on any object: no call raises,
  and afterwards every series is the series before followed by the pairs that the
  calls passed for it, one per call that addresses it, in the order of the calls;
  nothing stored before is moved, merged or replaced. From a new object a series
  is exactly the sequence of the pairs passed, and its length is the number of calls
  that address it (per key for the metrics methods).
\<close>

theorem appends_extend_series:
  "(list_all well_formed cs \<longrightarrow>
     (\<exists>h'. do_calls h cs = Inr h'
        \<and> read_series h' ch = read_series h ch @ concat (map (passed ch) cs)
        \<and> length (read_series h' ch) = length (read_series h ch) + length (filter (addresses ch) cs)))
   \<and> (list_all well_formed cs \<longrightarrow>
     (\<exists>h'. do_calls History_init cs = Inr h'
        \<and> read_series h' ch = concat (map (passed ch) cs)
        \<and> length (read_series h' ch) = length (filter (addresses ch) cs)))
   \<and> (well_formed c \<longrightarrow>
     (\<exists>h'. do_call h c = Inr h' \<and> read_series h' ch = read_series h ch @ passed ch c))
   \<and> length (passed ch c) = (if addresses ch c then 1 else 0)"
proof -
  have init: "read_series History_init ch = ([] :: 'a series)"
    by (cases ch) (simp_all add: History_init_def series_of_def)
  have "read_series (foldl after_call h cs) ch = read_series h ch @ concat (map (passed ch) cs)"
    if "list_all well_formed cs" for h :: "'a History"
    using that by (rule read_series_after_calls)
  then show ?thesis
    by (simp add: do_calls_Inr do_call_Inr init length_passed_calls passed_length
          read_series_after_call)
qed

theorem appends_extend_series_witness:
  "list_all well_formed
     [Add_loss_distributed 1 (5 :: int),
       Add_metrics_distributed_fit 1 [(''acc'', 7), (''f1'', 2)],
       Add_loss_distributed 0 3,
       Add_metrics_distributed_fit 0 [(''acc'', 9)]]
   \<and> (\<exists>h'. do_calls History_init
          [Add_loss_distributed 1 (5 :: int),
       Add_metrics_distributed_fit 1 [(''acc'', 7), (''f1'', 2)],
       Add_loss_distributed 0 3,
       Add_metrics_distributed_fit 0 [(''acc'', 9)]] = Inr h'
        \<and> read_series h' (Metric_distributed_fit ''acc'') = [(1, 7), (0, 9)]
        \<and> length (read_series h' (Metric_distributed_fit ''acc'')) = 2)"
proof -
  let ?cs = "[Add_loss_distributed 1 (5 :: int),
       Add_metrics_distributed_fit 1 [(''acc'', 7), (''f1'', 2)],
       Add_loss_distributed 0 3,
       Add_metrics_distributed_fit 0 [(''acc'', 9)]]"
  let ?ch = "Metric_distributed_fit ''acc''"
  have wf: "list_all well_formed ?cs"
    by simp
  with appends_extend_series [of ?cs History_init ?ch]
  have "\<exists>h'. do_calls History_init ?cs = Inr h'
          \<and> read_series h' ?ch = concat (map (passed ?ch) ?cs)
          \<and> length (read_series h' ?ch) = length (filter (addresses ?ch) ?cs)"
    by blast
  moreover have "concat (map (passed ?ch) ?cs) = [(1, 7), (0, 9)]"
    by simp
  moreover have "length (filter (addresses ?ch) ?cs) = 2"
    by (simp add: dict_contains_def)
  ultimately show ?thesis
    using wf by metis
qed

text \<open>
  Claim C6. A metric name that is a key of its table is still a key after any further
  calls, and the series stored under it then begins with the series stored before:
  no call removes a key or replaces its series. A name passed in a metrics call is a
  key after the call. A name passed exactly once since the object was created is a
  key whose series has exactly one entry.
\<close>

theorem metric_names_remain_keys:
  "(has_key h ch \<longrightarrow>
      (\<exists>h'. do_calls h cs = Inr h' \<and> has_key h' ch
         \<and> prefix (read_series h ch) (read_series h' ch)))
   \<and> (addresses ch c \<longrightarrow> (\<exists>h'. do_call h c = Inr h' \<and> has_key h' ch))
   \<and> (list_all well_formed cs \<and> length (filter (addresses ch) cs) = 1 \<longrightarrow>
        (\<exists>h'. do_calls History_init cs = Inr h' \<and> has_key h' ch
           \<and> length (read_series h' ch) = 1))"
proof -
  have init: "read_series History_init ch = ([] :: 'a series)"
    by (cases ch) (simp_all add: History_init_def series_of_def)
  have "length (read_series (foldl after_call History_init cs) ch) = 1"
    if "list_all well_formed cs" "length (filter (addresses ch) cs) = 1"
    using that by (simp add: read_series_after_calls init length_passed_calls)
  then show ?thesis
    by (simp add: do_calls_Inr do_call_Inr has_key_after_calls prefix_after_calls
          addressed_has_key addressed_once_has_key)
qed

theorem metric_names_remain_keys_witness:
  "has_key (History_init\<lparr>metrics_distributed := [(''loss'', [(1, 4 :: int)])]\<rparr>) (Metric_distributed ''loss'')
   \<and> (\<exists>h'. do_calls (History_init\<lparr>metrics_distributed := [(''loss'', [(1, 4 :: int)])]\<rparr>)
          [Add_metrics_distributed 2 [(''acc'', 7 :: int)], Add_loss_centralized 2 1,
       Add_metrics_centralized 2 [(''loss'', 5)]] = Inr h'
        \<and> has_key h' (Metric_distributed ''loss'')
        \<and> prefix [(1, 4)] (read_series h' (Metric_distributed ''loss'')))
   \<and> addresses (Metric_distributed ''acc'') (Add_metrics_distributed 2 [(''acc'', 7 :: int)])
   \<and> (\<exists>h'. do_call History_init (Add_metrics_distributed 2 [(''acc'', 7 :: int)]) = Inr h'
        \<and> has_key h' (Metric_distributed ''acc''))
   \<and> list_all well_formed
        [Add_metrics_distributed 2 [(''acc'', 7 :: int)], Add_loss_centralized 2 1,
       Add_metrics_centralized 2 [(''loss'', 5)]]
   \<and> length (filter (addresses (Metric_distributed ''acc''))
        [Add_metrics_distributed 2 [(''acc'', 7 :: int)], Add_loss_centralized 2 1,
       Add_metrics_centralized 2 [(''loss'', 5)]]) = 1
   \<and> (\<exists>h'. do_calls History_init
          [Add_metrics_distributed 2 [(''acc'', 7 :: int)], Add_loss_centralized 2 1,
       Add_metrics_centralized 2 [(''loss'', 5)]] = Inr h'
        \<and> has_key h' (Metric_distributed ''acc'')
        \<and> length (read_series h' (Metric_distributed ''acc'')) = 1)"
proof -
  let ?h = "(History_init\<lparr>metrics_distributed := [(''loss'', [(1, 4 :: int)])]\<rparr>)"
  let ?cs = "[Add_metrics_distributed 2 [(''acc'', 7 :: int)], Add_loss_centralized 2 1,
       Add_metrics_centralized 2 [(''loss'', 5)]]"
  let ?c = "Add_metrics_distributed 2 [(''acc'', 7 :: int)]"
  have a: "has_key ?h (Metric_distributed ''loss'')"
    by (simp add: dict_contains_def)
  have b: "addresses (Metric_distributed ''acc'') ?c"
    by (simp add: dict_contains_def)
  have c: "list_all well_formed ?cs"
    by simp
  have d: "length (filter (addresses (Metric_distributed ''acc'')) ?cs) = 1"
    by (simp add: dict_contains_def)
  have e: "read_series ?h (Metric_distributed ''loss'') = [(1, 4)]"
    by (simp add: series_of_def)
  from a metric_names_remain_keys [of ?h "Metric_distributed ''loss''" ?cs]
  have "\<exists>h'. do_calls ?h ?cs = Inr h' \<and> has_key h' (Metric_distributed ''loss'')
          \<and> prefix [(1, 4)] (read_series h' (Metric_distributed ''loss''))"
    unfolding e by blast
  moreover from b metric_names_remain_keys [of History_init "Metric_distributed ''acc''" ?cs ?c]
  have "\<exists>h'. do_call History_init ?c = Inr h' \<and> has_key h' (Metric_distributed ''acc'')"
    by blast
  moreover from c d metric_names_remain_keys [of History_init "Metric_distributed ''acc''" ?cs ?c]
  have "\<exists>h'. do_calls History_init ?cs = Inr h' \<and> has_key h' (Metric_distributed ''acc'')
          \<and> length (read_series h' (Metric_distributed ''acc'')) = 1"
    by blast
  ultimately show ?thesis
    using a b c d by blast
qed

text \<open>
  Claim C9. A call of an append method raises nothing and changes its own channel
  only. A channel that the call does not address reads as before and keeps its key;
  a channel that it addresses grows by one entry. \<open>add_loss_distributed\<close> changes the
  distributed loss series and no other attribute, \<open>add_loss_centralized\<close> the
  centralized loss series, and each \<open>add_metrics_*\<close> method its own table.
\<close>

theorem append_channels_independent:
  "(\<exists>h'. do_call h c = Inr h'
      \<and> (\<not> addresses ch c \<longrightarrow>
           read_series h' ch = read_series h ch \<and> has_key h' ch = has_key h ch)
      \<and> (well_formed c \<and> addresses ch c \<longrightarrow>
           length (read_series h' ch) = length (read_series h ch) + 1))
   \<and> (let h' = add_loss_distributed h r l in
        losses_distributed h' = losses_distributed h @ [(r, l)]
        \<and> losses_centralized h' = losses_centralized h
        \<and> metrics_distributed_fit h' = metrics_distributed_fit h
        \<and> metrics_distributed h' = metrics_distributed h
        \<and> metrics_centralized h' = metrics_centralized h)
   \<and> (let h' = add_loss_centralized h r l in
        losses_centralized h' = losses_centralized h @ [(r, l)]
        \<and> losses_distributed h' = losses_distributed h
        \<and> metrics_distributed_fit h' = metrics_distributed_fit h
        \<and> metrics_distributed h' = metrics_distributed h
        \<and> metrics_centralized h' = metrics_centralized h)
   \<and> (\<exists>h'. add_metrics_distributed_fit h r m = Inr h'
        \<and> losses_distributed h' = losses_distributed h
        \<and> losses_centralized h' = losses_centralized h
        \<and> metrics_distributed h' = metrics_distributed h
        \<and> metrics_centralized h' = metrics_centralized h)
   \<and> (\<exists>h'. add_metrics_distributed h r m = Inr h'
        \<and> losses_distributed h' = losses_distributed h
        \<and> losses_centralized h' = losses_centralized h
        \<and> metrics_distributed_fit h' = metrics_distributed_fit h
        \<and> metrics_centralized h' = metrics_centralized h)
   \<and> (\<exists>h'. add_metrics_centralized h r m = Inr h'
        \<and> losses_distributed h' = losses_distributed h
        \<and> losses_centralized h' = losses_centralized h
        \<and> metrics_distributed_fit h' = metrics_distributed_fit h
        \<and> metrics_distributed h' = metrics_distributed h)"
proof -
  have "length (read_series (after_call h c) ch) = length (read_series h ch) + 1"
    if "well_formed c" "addresses ch c"
    using that by (simp add: read_series_after_call passed_length)
  then have "\<exists>h'. do_call h c = Inr h'
      \<and> (\<not> addresses ch c \<longrightarrow>
           read_series h' ch = read_series h ch \<and> has_key h' ch = has_key h ch)
      \<and> (well_formed c \<and> addresses ch c \<longrightarrow>
           length (read_series h' ch) = length (read_series h ch) + 1)"
    by (simp add: do_call_Inr unaddressed_after_call)
  then show ?thesis
    by (simp add: add_loss_distributed_def add_loss_centralized_def
          add_metrics_distributed_fit_Inr add_metrics_distributed_Inr add_metrics_centralized_Inr)
qed

theorem append_channels_independent_witness:
  "\<not> addresses (Metric_centralized ''auc'') (Add_metrics_centralized 1 [(''acc'', 2 :: int), (''f1'', 6)])
   \<and> well_formed (Add_metrics_centralized 1 [(''acc'', 2 :: int), (''f1'', 6)])
   \<and> addresses (Metric_centralized ''acc'') (Add_metrics_centralized 1 [(''acc'', 2 :: int), (''f1'', 6)])
   \<and> (\<exists>h'. do_call (History_init\<lparr>losses_centralized := [(0, 3 :: int)],
          metrics_centralized := [(''acc'', [(0, 1)])]\<rparr>)
          (Add_metrics_centralized 1 [(''acc'', 2 :: int), (''f1'', 6)]) = Inr h'
        \<and> read_series h' (Metric_centralized ''auc'') = []
        \<and> \<not> has_key h' (Metric_centralized ''auc'')
        \<and> length (read_series h' (Metric_centralized ''acc'')) = 2
        \<and> losses_centralized h' = [(0, 3)])"
proof -
  let ?h = "(History_init\<lparr>losses_centralized := [(0, 3 :: int)],
          metrics_centralized := [(''acc'', [(0, 1)])]\<rparr>)"
  let ?c = "(Add_metrics_centralized 1 [(''acc'', 2 :: int), (''f1'', 6)])"
  have a: "\<not> addresses (Metric_centralized ''auc'') ?c"
    by (simp add: dict_contains_def)
  have b: "well_formed ?c" "addresses (Metric_centralized ''acc'') ?c"
    by (simp_all add: dict_contains_def)
  have c: "read_series ?h (Metric_centralized ''auc'') = []"
    "\<not> has_key ?h (Metric_centralized ''auc'')"
    "length (read_series ?h (Metric_centralized ''acc'')) = 1"
    by (simp_all add: series_of_def dict_contains_def)
  obtain h' where h': "do_call ?h ?c = Inr h'"
    using append_channels_independent [of ?h ?c Loss_distributed] by blast
  from a h' append_channels_independent [of ?h ?c "Metric_centralized ''auc''"] c
  have "read_series h' (Metric_centralized ''auc'') = []"
    "\<not> has_key h' (Metric_centralized ''auc'')"
    by auto
  moreover from b h' append_channels_independent [of ?h ?c "Metric_centralized ''acc''"] c
  have "length (read_series h' (Metric_centralized ''acc'')) = 2"
    by auto
  moreover from h' append_channels_independent [of ?h ?c _ 1 _ "[(''acc'', 2), (''f1'', 6)]"]
  have "losses_centralized h' = [(0, 3)]"
    by auto
  ultimately show ?thesis
    using a b h' by blast
qed

text \<open>
  Claim C10. Each of the three \<open>add_metrics_*\<close> methods, called with the empty
  dictionary, returns without an exception and leaves the object as it was: no key
  is created and no series grows. Both reports after the call are the reports
  before it.
\<close>

theorem empty_metrics_no_op:
  "add_metrics_distributed_fit h r [] = Inr h
   \<and> add_metrics_distributed h r [] = Inr h
   \<and> add_metrics_centralized h r [] = Inr h
   \<and> and_then (add_metrics_distributed_fit h' r []) (repr_json np) = repr_json np h'
   \<and> and_then (add_metrics_distributed h' r []) (repr_json np) = repr_json np h'
   \<and> and_then (add_metrics_centralized h' r []) (repr_json np) = repr_json np h'
   \<and> and_then (add_metrics_distributed_fit h r []) (History_repr fmt pformat) = History_repr fmt pformat h
   \<and> and_then (add_metrics_distributed h r []) (History_repr fmt pformat) = History_repr fmt pformat h
   \<and> and_then (add_metrics_centralized h r []) (History_repr fmt pformat) = History_repr fmt pformat h"
  by (simp add: add_metrics_distributed_fit_def add_metrics_distributed_def
        add_metrics_centralized_def)

theorem empty_metrics_no_op_witness:
  "add_metrics_distributed (add_loss_distributed History_init 0 (PyInt 2 :: real scalar)) 1 [] =
     Inr (add_loss_distributed History_init 0 (PyInt 2))
   \<and> and_then (add_metrics_distributed (add_loss_distributed History_init 0 (PyInt 2)) 1 [])
        (repr_json np_example) = repr_json np_example (add_loss_distributed History_init 0 (PyInt 2))"
  using empty_metrics_no_op
    [of "add_loss_distributed History_init 0 (PyInt 2 :: real scalar)" 1
      "add_loss_distributed History_init 0 (PyInt 2)" np_example]
  by simp

end

